theory Spec2Isabelle
  imports Complex_Main
begin

section \<open>The memory store the broker talks to\<close>

text \<open>
  \<^verbatim>\<open>agent_memory.py\<close> is a thin layer over the \<^verbatim>\<open>agentmemory\<close> package. The package is
  not part of the repository, so its operations are modelled from section 6 of the
  specification (and sections 3 and 4 where they say what an operation does). Everything
  the store owns and the specification leaves open is a parameter: the similarity score
  \<open>sim\<close> of two texts, and the readings of the wall clock.

  A metadata value is a Python string or a Python (unbounded) integer.
\<close>

datatype mval = MStr string | MInt int

type_synonym metadata = "string \<rightharpoonup> mval"

record memory =
  mem_id :: nat
  document :: string
  metadata :: metadata

text \<open>
  The state of the world the broker acts on: the records of every category in creation
  order (oldest first), the append-only event log, the epoch counter, the next free record
  identifier, and the readings \<^verbatim>\<open>datetime.now().isoformat()\<close> is going to return
  (reading \<open>0\<close> is the next one).
\<close>

record store =
  categories :: "string \<Rightarrow> memory list"
  events :: "(string \<times> metadata) list"
  epoch :: int
  next_id :: nat
  clock :: "nat \<Rightarrow> string"

datatype sort_order = Asc | Desc

definition datetime_now :: "store \<Rightarrow> string \<times> store" where
  "datetime_now s = (clock s 0, s\<lparr>clock := (\<lambda>i. clock s (Suc i))\<rparr>)"

text \<open>
  Modelled from the spec: \<^verbatim>\<open>create_memory\<close> of the agentmemory package, "create a record
  in a category with text + metadata". The record gets a fresh identifier.
\<close>

definition create_memory :: "string \<Rightarrow> string \<Rightarrow> metadata \<Rightarrow> store \<Rightarrow> store" where
  "create_memory category text meta s =
     s\<lparr>categories := (categories s)
          (category := categories s category @
             [\<lparr>mem_id = next_id s, document = text, metadata = meta\<rparr>]),
       next_id := Suc (next_id s)\<rparr>"

text \<open>
  Modelled from the spec: \<^verbatim>\<open>count_memories\<close> of the agentmemory package, "count records in
  a category".
\<close>

definition count_memories :: "string \<Rightarrow> store \<Rightarrow> nat" where
  "count_memories category s = length (categories s category)"

text \<open>
  A metadata filter is a dictionary of required key/value pairs; a record passes when its
  metadata has every one of them.
\<close>

definition matches :: "(string \<times> mval) list \<Rightarrow> memory \<Rightarrow> bool" where
  "matches flt m = list_all (\<lambda>(k, v). metadata m k = Some v) flt"

text \<open>
  Modelled from the spec: \<^verbatim>\<open>get_memories\<close> of the agentmemory package, "list records in a
  category, optionally metadata-filtered, with a result cap and sort order
  (ascending/descending by recency)". The cap is a number of records, hence a natural
  number.
\<close>

definition get_memories ::
  "string \<Rightarrow> (string \<times> mval) list \<Rightarrow> nat \<Rightarrow> sort_order \<Rightarrow> store \<Rightarrow> memory list" where
  "get_memories category flt n_results ord s =
     take n_results
       ((case ord of Desc \<Rightarrow> rev | Asc \<Rightarrow> (\<lambda>xs. xs)) (filter (matches flt) (categories s category)))"

text \<open>
  Modelled from the spec: \<^verbatim>\<open>search_memory\<close> of the agentmemory package,
  "similarity-search records in a category by a query string with a result cap", "returning
  up to limit ranked matches; ranking/relevance scoring is entirely store-owned". The
  records that pass the filter are ranked by decreasing similarity to the query (ties in
  creation order) and the best \<open>n_results\<close> are returned.
\<close>

definition search_memory ::
  "(string \<Rightarrow> string \<Rightarrow> real) \<Rightarrow> string \<Rightarrow> string \<Rightarrow> nat \<Rightarrow> (string \<times> mval) list \<Rightarrow> store
     \<Rightarrow> memory list" where
  "search_memory sim category query n_results flt s =
     take n_results
       (sort_key (\<lambda>m. - sim query (document m)) (filter (matches flt) (categories s category)))"

text \<open>
  Modelled from the spec: \<^verbatim>\<open>update_memory\<close> of the agentmemory package, "update a single
  record by category + identifier"; section 4.4: the given metadata keys are updated "in
  place, leaving all other fields untouched".
\<close>

definition update_memory :: "string \<Rightarrow> nat \<Rightarrow> metadata \<Rightarrow> store \<Rightarrow> store" where
  "update_memory category ident meta s =
     s\<lparr>categories := (categories s)
          (category := map (\<lambda>m. if mem_id m = ident then m\<lparr>metadata := metadata m ++ meta\<rparr> else m)
                         (categories s category))\<rparr>"

text \<open>
  Modelled from the spec: \<^verbatim>\<open>create_unique_memory\<close> of the agentmemory package, "create a
  record only if no near-duplicate (by similarity threshold) exists in the category".
\<close>

definition create_unique_memory ::
  "(string \<Rightarrow> string \<Rightarrow> real) \<Rightarrow> string \<Rightarrow> string \<Rightarrow> metadata \<Rightarrow> real \<Rightarrow> store \<Rightarrow> store" where
  "create_unique_memory sim category text meta similarity s =
     (if list_ex (\<lambda>m. similarity \<le> sim text (document m)) (categories s category) then s
      else create_memory category text meta s)"

text \<open>
  Modelled from the spec: \<^verbatim>\<open>reset_epoch\<close>, \<^verbatim>\<open>increment_epoch\<close> and \<^verbatim>\<open>get_epoch\<close> of the
  agentmemory package, "a process-wide epoch counter: reset, increment, read", "reset to
  zero at broker initialization".
\<close>

definition reset_epoch :: "store \<Rightarrow> store" where
  "reset_epoch s = s\<lparr>epoch := 0\<rparr>"

definition increment_epoch :: "store \<Rightarrow> store" where
  "increment_epoch s = s\<lparr>epoch := epoch s + 1\<rparr>"

definition get_epoch :: "store \<Rightarrow> int" where
  "get_epoch s = epoch s"

text \<open>
  Modelled from the spec: \<^verbatim>\<open>create_event\<close> of the agentmemory package, "append-only event
  log write"; section 3: an event carries "the same metadata shape as a memory record",
  and the epoch counter is "stamped onto every memory/event created afterward". The
  broker writes the epoch into the metadata of its memory records itself and passes none
  to \<^verbatim>\<open>create_event\<close>, so for an event it is the store that adds the current epoch to the
  metadata it is given.
\<close>

definition create_event :: "string \<Rightarrow> metadata \<Rightarrow> store \<Rightarrow> store" where
  "create_event text meta s =
     s\<lparr>events := events s @ [(text, meta(''epoch'' \<mapsto> MInt (get_epoch s)))]\<rparr>"

text \<open>
  The defaults of the package for arguments the broker does not pass: the result cap of
  \<^verbatim>\<open>search_memory\<close> (\<^verbatim>\<open>n_results=5\<close>) and the sort order of \<^verbatim>\<open>get_memories\<close>
  (\<^verbatim>\<open>sort_order="desc"\<close>). The specification leaves both open. \<^verbatim>\<open>record_user_preference\<close>
  looks only at whether the search result is empty and at its first element, which are the
  same for every positive cap; the sort order decides only which of several records of one
  type \<^verbatim>\<open>get_user_preferences\<close> lets win.
\<close>

definition default_n_results :: nat where
  "default_n_results = 5"

definition default_sort_order :: sort_order where
  "default_sort_order = Desc"

section \<open>The broker: \<^verbatim>\<open>agent_memory.py\<close>\<close>

definition CATEGORY_CONVERSATIONS :: string where
  "CATEGORY_CONVERSATIONS = ''ord_conversations''"

definition CATEGORY_BITCOIN_FACTS :: string where
  "CATEGORY_BITCOIN_FACTS = ''bitcoin_facts''"

definition CATEGORY_ORDINALS_KNOWLEDGE :: string where
  "CATEGORY_ORDINALS_KNOWLEDGE = ''ordinals_knowledge''"

definition CATEGORY_USER_PREFERENCES :: string where
  "CATEGORY_USER_PREFERENCES = ''user_preferences''"

definition seed_bitcoin_facts :: "string list" where
  "seed_bitcoin_facts =
     [''Bitcoin was created by Satoshi Nakamoto in 2009.'',
      ''Bitcoin has a maximum supply of 21 million coins.'',
      ''Bitcoin uses a proof-of-work consensus mechanism.'',
      ''Bitcoin blocks are mined approximately every 10 minutes.'',
      ''The smallest unit of Bitcoin is called a satoshi, equal to 0.00000001 BTC.'']"

definition seed_ordinals_knowledge :: "string list" where
  "seed_ordinals_knowledge =
     [''Ordinals are a way to assign unique identifiers to individual satoshis in Bitcoin.'',
      ''Ordinals allow for the creation of digital artifacts on Bitcoin through inscriptions.'',
      ''Ordinal theory was developed by Casey Rodarmor.'',
      ''Ordinal inscriptions store data directly on the Bitcoin blockchain.'',
      ''Rare satoshis include those from the genesis block and block reward halving events.'']"

text \<open>One pass of either loop of \<^verbatim>\<open>seed_initial_knowledge\<close>.\<close>

definition seed_one :: "string \<Rightarrow> string \<Rightarrow> store \<Rightarrow> store" where
  "seed_one category text s =
     (let (ts, s1) = datetime_now s
      in create_memory category text
           [''timestamp'' \<mapsto> MStr ts, ''source'' \<mapsto> MStr ''initial_seeding''] s1)"

definition seed_initial_knowledge :: "store \<Rightarrow> store" where
  "seed_initial_knowledge s =
     fold (seed_one CATEGORY_ORDINALS_KNOWLEDGE) seed_ordinals_knowledge
       (fold (seed_one CATEGORY_BITCOIN_FACTS) seed_bitcoin_facts s)"

definition initialize_memory :: "store \<Rightarrow> store" where
  "initialize_memory s =
     (let s1 = reset_epoch s;
          conversation_count = count_memories CATEGORY_CONVERSATIONS s1;
          facts_count = count_memories CATEGORY_BITCOIN_FACTS s1;
          ordinals_count = count_memories CATEGORY_ORDINALS_KNOWLEDGE s1;
          preferences_count = count_memories CATEGORY_USER_PREFERENCES s1
      in if ordinals_count = 0 then seed_initial_knowledge s1 else s1)"

definition record_user_message :: "string \<Rightarrow> string \<Rightarrow> store \<Rightarrow> store" where
  "record_user_message user_id message s =
     (let (ts, s1) = datetime_now s;
          s2 = create_memory CATEGORY_CONVERSATIONS message
                 [''timestamp'' \<mapsto> MStr ts, ''user_id'' \<mapsto> MStr user_id,
                  ''speaker'' \<mapsto> MStr ''user'', ''epoch'' \<mapsto> MInt (get_epoch s1)] s1
      in create_event (''User '' @ user_id @ '' said: '' @ message)
           [''user_id'' \<mapsto> MStr user_id, ''message_type'' \<mapsto> MStr ''user_message''] s2)"

definition record_agent_response :: "string \<Rightarrow> string \<Rightarrow> store \<Rightarrow> store" where
  "record_agent_response user_id message s =
     (let (ts, s1) = datetime_now s;
          s2 = create_memory CATEGORY_CONVERSATIONS message
                 [''timestamp'' \<mapsto> MStr ts, ''user_id'' \<mapsto> MStr user_id,
                  ''speaker'' \<mapsto> MStr ''ord_gpt'', ''epoch'' \<mapsto> MInt (get_epoch s1)] s1
      in create_event (''Ord GPT responded to '' @ user_id @ '': '' @ take 50 message @ ''...'')
           [''user_id'' \<mapsto> MStr user_id, ''message_type'' \<mapsto> MStr ''agent_response''] s2)"

text \<open>
  Python's default arguments are passed explicitly: \<^verbatim>\<open>source="conversation"\<close> of
  \<^verbatim>\<open>record_bitcoin_fact\<close> and \<^verbatim>\<open>record_ordinals_knowledge\<close> (which \<^verbatim>\<open>record_response\<close> relies
  on), \<^verbatim>\<open>limit=10\<close> of \<^verbatim>\<open>get_conversation_history\<close> and \<^verbatim>\<open>limit=5\<close> of the two searches
  (\<^verbatim>\<open>generate_context\<close> passes 5 and 3).
\<close>

definition record_bitcoin_fact ::
  "(string \<Rightarrow> string \<Rightarrow> real) \<Rightarrow> string \<Rightarrow> string \<Rightarrow> store \<Rightarrow> store" where
  "record_bitcoin_fact sim fact_text source s =
     (let (ts, s1) = datetime_now s
      in create_unique_memory sim CATEGORY_BITCOIN_FACTS fact_text
           [''timestamp'' \<mapsto> MStr ts, ''source'' \<mapsto> MStr source, ''epoch'' \<mapsto> MInt (get_epoch s1)]
           (85 / 100) s1)"

definition record_ordinals_knowledge ::
  "(string \<Rightarrow> string \<Rightarrow> real) \<Rightarrow> string \<Rightarrow> string \<Rightarrow> store \<Rightarrow> store" where
  "record_ordinals_knowledge sim knowledge source s =
     (let (ts, s1) = datetime_now s
      in create_unique_memory sim CATEGORY_ORDINALS_KNOWLEDGE knowledge
           [''timestamp'' \<mapsto> MStr ts, ''source'' \<mapsto> MStr source, ''epoch'' \<mapsto> MInt (get_epoch s1)]
           (85 / 100) s1)"

definition record_user_preference ::
  "(string \<Rightarrow> string \<Rightarrow> real) \<Rightarrow> string \<Rightarrow> string \<Rightarrow> string \<Rightarrow> store \<Rightarrow> store" where
  "record_user_preference sim user_id preference_type preference_value s =
     (let existing_prefs =
            search_memory sim CATEGORY_USER_PREFERENCES preference_type default_n_results
              [(''user_id'', MStr user_id)] s
      in case existing_prefs of
           m # _ \<Rightarrow>
             (let (ts, s1) = datetime_now s
              in update_memory CATEGORY_USER_PREFERENCES (mem_id m)
                   [''value'' \<mapsto> MStr preference_value, ''timestamp'' \<mapsto> MStr ts] s1)
         | [] \<Rightarrow>
             (let (ts, s1) = datetime_now s
              in create_memory CATEGORY_USER_PREFERENCES preference_type
                   [''user_id'' \<mapsto> MStr user_id, ''value'' \<mapsto> MStr preference_value,
                    ''timestamp'' \<mapsto> MStr ts] s1))"

record turn =
  speaker :: mval
  turn_text :: string

definition format_turn :: "memory \<Rightarrow> turn" where
  "format_turn m =
     \<lparr>speaker = (case metadata m ''speaker'' of Some v \<Rightarrow> v | None \<Rightarrow> MStr ''unknown''),
      turn_text = document m\<rparr>"

definition get_conversation_history :: "string \<Rightarrow> nat \<Rightarrow> store \<Rightarrow> turn list" where
  "get_conversation_history user_id limit s =
     (let memories = get_memories CATEGORY_CONVERSATIONS [(''user_id'', MStr user_id)] limit Desc s
      in map format_turn (rev memories))"

definition search_bitcoin_facts ::
  "(string \<Rightarrow> string \<Rightarrow> real) \<Rightarrow> string \<Rightarrow> nat \<Rightarrow> store \<Rightarrow> memory list" where
  "search_bitcoin_facts sim query limit s =
     search_memory sim CATEGORY_BITCOIN_FACTS query limit [] s"

definition search_ordinals_knowledge ::
  "(string \<Rightarrow> string \<Rightarrow> real) \<Rightarrow> string \<Rightarrow> nat \<Rightarrow> store \<Rightarrow> memory list" where
  "search_ordinals_knowledge sim query limit s =
     search_memory sim CATEGORY_ORDINALS_KNOWLEDGE query limit [] s"

text \<open>
  The preference dictionary: a key is present once a record of that type was seen, and its
  value is what \<^verbatim>\<open>metadata.get("value")\<close> gave, which is \<^verbatim>\<open>None\<close> for a record without
  that key.
\<close>

definition get_user_preferences :: "string \<Rightarrow> store \<Rightarrow> (string \<rightharpoonup> mval option)" where
  "get_user_preferences user_id s =
     (let memories = get_memories CATEGORY_USER_PREFERENCES [(''user_id'', MStr user_id)] 100
                       default_sort_order s
      in fold (\<lambda>m preferences. preferences(document m \<mapsto> metadata m ''value'')) memories Map.empty)"

record context_bundle =
  conversation_history :: "turn list"
  relevant_bitcoin_facts :: "string list"
  relevant_ordinals_knowledge :: "string list"
  user_preferences :: "string \<rightharpoonup> mval option"
  current_epoch :: int

definition generate_context ::
  "(string \<Rightarrow> string \<Rightarrow> real) \<Rightarrow> string \<Rightarrow> string \<Rightarrow> store \<Rightarrow> context_bundle \<times> store" where
  "generate_context sim user_id current_message s =
     (let s1 = increment_epoch s;
          s2 = record_user_message user_id current_message s1;
          history = get_conversation_history user_id 5 s2;
          bitcoin_facts = search_bitcoin_facts sim current_message 3 s2;
          ordinals_knowledge = search_ordinals_knowledge sim current_message 3 s2;
          user_prefs = get_user_preferences user_id s2
      in (\<lparr>conversation_history = history,
           relevant_bitcoin_facts = map document bitcoin_facts,
           relevant_ordinals_knowledge = map document ordinals_knowledge,
           user_preferences = user_prefs,
           current_epoch = get_epoch s2\<rparr>, s2))"

definition process_message ::
  "(string \<Rightarrow> string \<Rightarrow> real) \<Rightarrow> string \<Rightarrow> string \<Rightarrow> store \<Rightarrow> context_bundle \<times> store" where
  "process_message sim user_id message s = generate_context sim user_id message s"

text \<open>
  \<^verbatim>\<open>new_facts\<close> and \<^verbatim>\<open>new_knowledge\<close> default to \<^verbatim>\<open>None\<close>; \<^verbatim>\<open>if new_facts:\<close> is false for
  \<^verbatim>\<open>None\<close> and for the empty list.
\<close>

definition truthy :: "string list option \<Rightarrow> bool" where
  "truthy xs = (case xs of None \<Rightarrow> False | Some ys \<Rightarrow> ys \<noteq> [])"

definition record_response ::
  "(string \<Rightarrow> string \<Rightarrow> real) \<Rightarrow> string \<Rightarrow> string \<Rightarrow> string list option \<Rightarrow> string list option
     \<Rightarrow> store \<Rightarrow> store" where
  "record_response sim user_id response new_facts new_knowledge s =
     (let s1 = record_agent_response user_id response s;
          s2 = (if truthy new_facts
                then fold (\<lambda>fact_text. record_bitcoin_fact sim fact_text ''conversation'') (the new_facts) s1
                else s1)
      in if truthy new_knowledge
         then fold (\<lambda>knowledge. record_ordinals_knowledge sim knowledge ''conversation'')
                (the new_knowledge) s2
         else s2)"

section \<open>Concrete stores and a concrete similarity score\<close>

text \<open>
  Inputs for running the model: a store with nothing in it, a store in which user \<open>u1\<close>
  has one preference record, and a similarity score that tells equal texts from different
  ones.
\<close>

definition empty_store :: store where
  "empty_store = \<lparr>categories = (\<lambda>c. []), events = [], epoch = 0, next_id = 0,
                    clock = (\<lambda>i. ''2025-03-23T00:00:00'')\<rparr>"

definition exact_sim :: "string \<Rightarrow> string \<Rightarrow> real" where
  "exact_sim a b = (if a = b then 1 else 0)"




section \<open>Sequences of broker operations\<close>

text \<open>
  The operations of the broker that write to the store, as a datatype, so that a sequence
  of calls is a list. The read-only operations (\<^verbatim>\<open>get_conversation_history\<close>,
  \<^verbatim>\<open>search_bitcoin_facts\<close>, \<^verbatim>\<open>search_ordinals_knowledge\<close>, \<^verbatim>\<open>get_user_preferences\<close>)
  leave the store as it is.
\<close>

datatype broker_op =
    RecordUserMessage string string
  | RecordAgentResponse string string
  | RecordBitcoinFact string string
  | RecordOrdinalsKnowledge string string
  | RecordUserPreference string string string
  | ProcessMessage string string
  | RecordResponse string string "string list option" "string list option"
  | InitializeMemory

fun apply_op :: "(string \<Rightarrow> string \<Rightarrow> real) \<Rightarrow> broker_op \<Rightarrow> store \<Rightarrow> store" where
  "apply_op sim (RecordUserMessage u m) s = record_user_message u m s"
| "apply_op sim (RecordAgentResponse u m) s = record_agent_response u m s"
| "apply_op sim (RecordBitcoinFact t src) s = record_bitcoin_fact sim t src s"
| "apply_op sim (RecordOrdinalsKnowledge t src) s = record_ordinals_knowledge sim t src s"
| "apply_op sim (RecordUserPreference u t v) s = record_user_preference sim u t v s"
| "apply_op sim (ProcessMessage u m) s = snd (process_message sim u m s)"
| "apply_op sim (RecordResponse u r nf nk) s = record_response sim u r nf nk s"
| "apply_op sim InitializeMemory s = initialize_memory s"

definition run :: "(string \<Rightarrow> string \<Rightarrow> real) \<Rightarrow> broker_op list \<Rightarrow> store \<Rightarrow> store" where
  "run sim ops s = fold (apply_op sim) ops s"

text \<open>
  Identifiers are well-formed when, within every category, no two records share one and
  every one is below the next free identifier.
\<close>

definition ids_ok :: "store \<Rightarrow> bool" where
  "ids_ok s \<longleftrightarrow>
     (\<forall>c. distinct (map mem_id (categories s c))
          \<and> (\<forall>m \<in> set (categories s c). mem_id m < next_id s))"

section \<open>What the operations do to the store\<close>

lemma category_names_distinct:
  "CATEGORY_CONVERSATIONS \<noteq> CATEGORY_BITCOIN_FACTS"
  "CATEGORY_CONVERSATIONS \<noteq> CATEGORY_ORDINALS_KNOWLEDGE"
  "CATEGORY_CONVERSATIONS \<noteq> CATEGORY_USER_PREFERENCES"
  "CATEGORY_BITCOIN_FACTS \<noteq> CATEGORY_ORDINALS_KNOWLEDGE"
  "CATEGORY_BITCOIN_FACTS \<noteq> CATEGORY_USER_PREFERENCES"
  "CATEGORY_ORDINALS_KNOWLEDGE \<noteq> CATEGORY_USER_PREFERENCES"
  "CATEGORY_BITCOIN_FACTS \<noteq> CATEGORY_CONVERSATIONS"
  "CATEGORY_ORDINALS_KNOWLEDGE \<noteq> CATEGORY_CONVERSATIONS"
  "CATEGORY_USER_PREFERENCES \<noteq> CATEGORY_CONVERSATIONS"
  "CATEGORY_ORDINALS_KNOWLEDGE \<noteq> CATEGORY_BITCOIN_FACTS"
  "CATEGORY_USER_PREFERENCES \<noteq> CATEGORY_BITCOIN_FACTS"
  "CATEGORY_USER_PREFERENCES \<noteq> CATEGORY_ORDINALS_KNOWLEDGE"
  by (simp_all add: CATEGORY_CONVERSATIONS_def CATEGORY_BITCOIN_FACTS_def
      CATEGORY_ORDINALS_KNOWLEDGE_def CATEGORY_USER_PREFERENCES_def)

lemma matches_user_id:
  "matches [(''user_id'', MStr user_id)] = (\<lambda>m. metadata m ''user_id'' = Some (MStr user_id))"
  by (rule ext) (simp add: matches_def)


lemma rev_take_rev: "rev (take n (rev xs)) = drop (length xs - n) xs"
  by (simp add: rev_take)

lemma categories_record_user_message:
  "categories (record_user_message user_id message s) =
     (categories s)(CATEGORY_CONVERSATIONS := categories s CATEGORY_CONVERSATIONS @
        [\<lparr>mem_id = next_id s, document = message,
          metadata = [''timestamp'' \<mapsto> MStr (clock s 0), ''user_id'' \<mapsto> MStr user_id,
                      ''speaker'' \<mapsto> MStr ''user'', ''epoch'' \<mapsto> MInt (epoch s)]\<rparr>])"
  by (simp add: Let_def record_user_message_def datetime_now_def create_memory_def create_event_def
      get_epoch_def)

lemma events_record_user_message:
  "events (record_user_message user_id message s) =
     events s @ [(''User '' @ user_id @ '' said: '' @ message,
                  [''user_id'' \<mapsto> MStr user_id, ''message_type'' \<mapsto> MStr ''user_message'',
                    ''epoch'' \<mapsto> MInt (epoch s)])]"
  by (simp add: get_epoch_def Let_def record_user_message_def datetime_now_def create_memory_def create_event_def)

lemma epoch_record_user_message:
  "epoch (record_user_message user_id message s) = epoch s"
  by (simp add: get_epoch_def Let_def record_user_message_def datetime_now_def create_memory_def create_event_def)

lemma categories_record_agent_response:
  "categories (record_agent_response user_id message s) =
     (categories s)(CATEGORY_CONVERSATIONS := categories s CATEGORY_CONVERSATIONS @
        [\<lparr>mem_id = next_id s, document = message,
          metadata = [''timestamp'' \<mapsto> MStr (clock s 0), ''user_id'' \<mapsto> MStr user_id,
                      ''speaker'' \<mapsto> MStr ''ord_gpt'', ''epoch'' \<mapsto> MInt (epoch s)]\<rparr>])"
  by (simp add: Let_def record_agent_response_def datetime_now_def create_memory_def create_event_def
      get_epoch_def)

lemma events_record_agent_response:
  "events (record_agent_response user_id message s) =
     events s @ [(''Ord GPT responded to '' @ user_id @ '': '' @ take 50 message @ ''...'',
                  [''user_id'' \<mapsto> MStr user_id, ''message_type'' \<mapsto> MStr ''agent_response'',
                    ''epoch'' \<mapsto> MInt (epoch s)])]"
  by (simp add: get_epoch_def Let_def record_agent_response_def datetime_now_def create_memory_def create_event_def)

lemma epoch_record_agent_response:
  "epoch (record_agent_response user_id message s) = epoch s"
  by (simp add: get_epoch_def Let_def record_agent_response_def datetime_now_def create_memory_def create_event_def)

lemma next_id_record_agent_response:
  "next_id (record_agent_response user_id message s) = Suc (next_id s)"
  by (simp add: get_epoch_def Let_def record_agent_response_def datetime_now_def create_memory_def create_event_def)


lemma dom_fold_preferences:
  "dom (fold (\<lambda>m preferences. preferences(document m \<mapsto> metadata m ''value'')) ms acc)
     = dom acc \<union> document ` set ms"
  by (induction ms arbitrary: acc) auto

text \<open>
  The preference mapping covers every preference record of the user as long as there are
  at most 100 of them, the cap \<^verbatim>\<open>get_user_preferences\<close> passes to the store.
\<close>

lemma get_user_preferences_dom:
  assumes "length (filter (\<lambda>m. metadata m ''user_id'' = Some (MStr user_id))
                     (categories s CATEGORY_USER_PREFERENCES)) \<le> 100"
  shows "dom (get_user_preferences user_id s) =
           document ` {m \<in> set (categories s CATEGORY_USER_PREFERENCES).
                         metadata m ''user_id'' = Some (MStr user_id)}"
  using assms
  by (simp add: get_user_preferences_def get_memories_def default_sort_order_def
      matches_user_id dom_fold_preferences)




lemma search_memory_subset:
  "set (search_memory sim category query n flt s) \<subseteq> set (categories s category)"
proof -
  have "set (search_memory sim category query n flt s)
          \<subseteq> set (sort_key (\<lambda>m. - sim query (document m))
                      (filter (matches flt) (categories s category)))"
    unfolding search_memory_def by (rule set_take_subset)
  then show ?thesis by auto
qed

lemma search_memory_Nil_iff:
  "search_memory sim category query n flt s = [] \<longleftrightarrow>
     n = 0 \<or> filter (matches flt) (categories s category) = []"
proof -
  have "sort_key f xs = [] \<longleftrightarrow> xs = []" for f :: "memory \<Rightarrow> real" and xs
    by (metis length_sort length_0_conv)
  then show ?thesis
    by (simp add: search_memory_def take_eq_Nil)
qed

lemma distinct_ids_eq:
  assumes "distinct (map mem_id xs)" "m \<in> set xs" "r \<in> set xs"
  shows "mem_id r = mem_id m \<longleftrightarrow> r = m"
  using assms by (auto simp: distinct_map dest: inj_onD)

lemma record_user_preference_frame:
  "c \<noteq> CATEGORY_USER_PREFERENCES \<Longrightarrow>
   categories (record_user_preference sim user_id preference_type preference_value s) c
     = categories s c"
  "epoch (record_user_preference sim user_id preference_type preference_value s) = epoch s"
  "events (record_user_preference sim user_id preference_type preference_value s) = events s"
  by (simp_all add: record_user_preference_def datetime_now_def create_memory_def update_memory_def
      Let_def split: list.splits)

subsection \<open>Seeding\<close>

lemma seed_one_effect:
  "categories (seed_one c t s) =
     (categories s)(c := categories s c @
        [\<lparr>mem_id = next_id s, document = t,
          metadata = [''timestamp'' \<mapsto> MStr (clock s 0), ''source'' \<mapsto> MStr ''initial_seeding'']\<rparr>])"
  "epoch (seed_one c t s) = epoch s"
  "events (seed_one c t s) = events s"
  by (simp_all add: seed_one_def datetime_now_def create_memory_def)

lemma fold_seed_one:
  "epoch (fold (seed_one c) ts s) = epoch s \<and> events (fold (seed_one c) ts s) = events s
   \<and> (\<exists>new. categories (fold (seed_one c) ts s) = (categories s)(c := categories s c @ new)
         \<and> map document new = ts
         \<and> (\<forall>m \<in> set new. dom (metadata m) = {''timestamp'', ''source''}
                \<and> metadata m ''source'' = Some (MStr ''initial_seeding'')))"
proof (induction ts arbitrary: s)
  case Nil
  have "categories s = (categories s)(c := categories s c @ [])"
    by simp
  then show ?case
    by (intro conjI exI [of _ "[]"]) simp_all
next
  case (Cons t ts)
  from Cons.IH [of "seed_one c t s"] obtain new where
    e: "epoch (fold (seed_one c) ts (seed_one c t s)) = epoch (seed_one c t s)"
    and v: "events (fold (seed_one c) ts (seed_one c t s)) = events (seed_one c t s)"
    and c: "categories (fold (seed_one c) ts (seed_one c t s)) =
              (categories (seed_one c t s))(c := categories (seed_one c t s) c @ new)"
    and d: "map document new = ts"
    and t: "\<forall>m \<in> set new. dom (metadata m) = {''timestamp'', ''source''}
                \<and> metadata m ''source'' = Some (MStr ''initial_seeding'')"
    by blast
  let ?r = "\<lparr>mem_id = next_id s, document = t,
          metadata = [''timestamp'' \<mapsto> MStr (clock s 0), ''source'' \<mapsto> MStr ''initial_seeding'']\<rparr>"
  have "categories (fold (seed_one c) (t # ts) s) = (categories s)(c := categories s c @ (?r # new))"
    using c by (simp add: seed_one_effect)
  moreover have "map document (?r # new) = t # ts"
    using d by simp
  moreover have "\<forall>m \<in> set (?r # new). dom (metadata m) = {''timestamp'', ''source''}
                \<and> metadata m ''source'' = Some (MStr ''initial_seeding'')"
    using t by auto
  ultimately show ?case
    using e v by (intro conjI exI [of _ "?r # new"]) (simp_all add: seed_one_effect)
qed

lemma seed_initial_knowledge_effect:
  "epoch (seed_initial_knowledge s) = epoch s \<and> events (seed_initial_knowledge s) = events s
   \<and> (\<exists>fs ks. categories (seed_initial_knowledge s) =
         (categories s)(CATEGORY_BITCOIN_FACTS := categories s CATEGORY_BITCOIN_FACTS @ fs,
                        CATEGORY_ORDINALS_KNOWLEDGE := categories s CATEGORY_ORDINALS_KNOWLEDGE @ ks)
         \<and> map document fs = seed_bitcoin_facts
         \<and> map document ks = seed_ordinals_knowledge
         \<and> (\<forall>m \<in> set (fs @ ks). dom (metadata m) = {''timestamp'', ''source''}
                \<and> metadata m ''source'' = Some (MStr ''initial_seeding'')))"
proof -
  define s1 where "s1 = fold (seed_one CATEGORY_BITCOIN_FACTS) seed_bitcoin_facts s"
  from fold_seed_one [of CATEGORY_BITCOIN_FACTS seed_bitcoin_facts s] obtain fs where
    e1: "epoch s1 = epoch s" and v1: "events s1 = events s"
    and c1: "categories s1 = (categories s)(CATEGORY_BITCOIN_FACTS := categories s CATEGORY_BITCOIN_FACTS @ fs)"
    and d1: "map document fs = seed_bitcoin_facts"
    and t1: "\<forall>m \<in> set fs. dom (metadata m) = {''timestamp'', ''source''}
                \<and> metadata m ''source'' = Some (MStr ''initial_seeding'')"
    unfolding s1_def by blast
  from fold_seed_one [of CATEGORY_ORDINALS_KNOWLEDGE seed_ordinals_knowledge s1] obtain ks where
    e2: "epoch (seed_initial_knowledge s) = epoch s1"
    and v2: "events (seed_initial_knowledge s) = events s1"
    and c2: "categories (seed_initial_knowledge s) =
               (categories s1)(CATEGORY_ORDINALS_KNOWLEDGE := categories s1 CATEGORY_ORDINALS_KNOWLEDGE @ ks)"
    and d2: "map document ks = seed_ordinals_knowledge"
    and t2: "\<forall>m \<in> set ks. dom (metadata m) = {''timestamp'', ''source''}
                \<and> metadata m ''source'' = Some (MStr ''initial_seeding'')"
    unfolding seed_initial_knowledge_def s1_def by blast
  have "categories (seed_initial_knowledge s) =
         (categories s)(CATEGORY_BITCOIN_FACTS := categories s CATEGORY_BITCOIN_FACTS @ fs,
                        CATEGORY_ORDINALS_KNOWLEDGE := categories s CATEGORY_ORDINALS_KNOWLEDGE @ ks)"
    by (simp add: c2 c1 category_names_distinct)
  moreover have "\<forall>m \<in> set (fs @ ks). dom (metadata m) = {''timestamp'', ''source''}
                \<and> metadata m ''source'' = Some (MStr ''initial_seeding'')"
    using t1 t2 by auto
  ultimately show ?thesis
    using e1 e2 v1 v2 d1 d2 by (intro conjI exI [of _ fs] exI [of _ ks]) simp_all
qed

lemma initialize_memory_frame:
  "epoch (initialize_memory s) = 0"
  "c \<noteq> CATEGORY_BITCOIN_FACTS \<Longrightarrow> c \<noteq> CATEGORY_ORDINALS_KNOWLEDGE \<Longrightarrow>
   categories (initialize_memory s) c = categories s c"
proof -
  define s1 where "s1 = reset_epoch s"
  have s1: "categories s1 = categories s" "epoch s1 = 0"
    by (simp_all add: s1_def reset_epoch_def)
  from seed_initial_knowledge_effect [of s1] obtain fs ks where
    e: "epoch (seed_initial_knowledge s1) = epoch s1"
    and c: "categories (seed_initial_knowledge s1) =
         (categories s1)(CATEGORY_BITCOIN_FACTS := categories s1 CATEGORY_BITCOIN_FACTS @ fs,
                        CATEGORY_ORDINALS_KNOWLEDGE := categories s1 CATEGORY_ORDINALS_KNOWLEDGE @ ks)"
    by (elim conjE exE)
  have init: "initialize_memory s =
      (if count_memories CATEGORY_ORDINALS_KNOWLEDGE s = 0 then seed_initial_knowledge s1 else s1)"
    by (simp add: initialize_memory_def Let_def s1_def count_memories_def reset_epoch_def)
  show "epoch (initialize_memory s) = 0"
    by (simp add: init e s1)
  show "categories (initialize_memory s) c = categories s c"
    if "c \<noteq> CATEGORY_BITCOIN_FACTS" "c \<noteq> CATEGORY_ORDINALS_KNOWLEDGE"
    using that by (simp add: init c s1)
qed

lemma initialize_memory_writes_nothing:
  "count_memories CATEGORY_ORDINALS_KNOWLEDGE s \<noteq> 0 \<Longrightarrow>
   categories (initialize_memory s) = categories s"
  "events (initialize_memory s) = events s"
proof -
  show "categories (initialize_memory s) = categories s"
    if "count_memories CATEGORY_ORDINALS_KNOWLEDGE s \<noteq> 0"
    using that by (simp add: initialize_memory_def Let_def count_memories_def reset_epoch_def)
  have "events (seed_initial_knowledge (reset_epoch s)) = events (reset_epoch s)"
    using seed_initial_knowledge_effect [of "reset_epoch s"] by (elim conjE)
  then show "events (initialize_memory s) = events s"
    by (simp add: initialize_memory_def Let_def reset_epoch_def)
qed

subsection \<open>Deduplicating inserts, one and many\<close>

lemma create_unique_memory_effect:
  "epoch (create_unique_memory sim c t meta th s) = epoch s
   \<and> events (create_unique_memory sim c t meta th s) = events s
   \<and> next_id s \<le> next_id (create_unique_memory sim c t meta th s)
   \<and> clock (create_unique_memory sim c t meta th s) = clock s
   \<and> (\<exists>new. categories (create_unique_memory sim c t meta th s) =
                  (categories s)(c := categories s c @ new)
          \<and> (\<forall>m \<in> set new. mem_id m = next_id s \<and> document m = t \<and> metadata m = meta))"
proof (cases "list_ex (\<lambda>m. th \<le> sim t (document m)) (categories s c)")
  case True
  have "categories s = (categories s)(c := categories s c @ [])"
    by simp
  then show ?thesis
    using True by (intro conjI exI [of _ "[]"]) (simp_all add: create_unique_memory_def)
next
  case False
  then show ?thesis
    by (intro conjI exI [of _ "[\<lparr>mem_id = next_id s, document = t, metadata = meta\<rparr>]"])
      (simp_all add: create_unique_memory_def create_memory_def)
qed

lemma record_bitcoin_fact_effect:
  "epoch (record_bitcoin_fact sim t src s) = epoch s
   \<and> events (record_bitcoin_fact sim t src s) = events s
   \<and> next_id s \<le> next_id (record_bitcoin_fact sim t src s)
   \<and> (\<exists>new. categories (record_bitcoin_fact sim t src s) =
                  (categories s)(CATEGORY_BITCOIN_FACTS := categories s CATEGORY_BITCOIN_FACTS @ new)
          \<and> (\<forall>m \<in> set new. next_id s \<le> mem_id m \<and> document m = t
                 \<and> metadata m ''source'' = Some (MStr src)
                 \<and> metadata m ''epoch'' = Some (MInt (epoch s))))"
proof -
  define s1 where "s1 = snd (datetime_now s)"
  define meta where "meta = [''timestamp'' \<mapsto> MStr (clock s 0), ''source'' \<mapsto> MStr src,
                             ''epoch'' \<mapsto> MInt (epoch s)]"
  have s1: "epoch s1 = epoch s" "events s1 = events s" "next_id s1 = next_id s"
    "categories s1 = categories s"
    by (simp_all add: s1_def datetime_now_def)
  have r: "record_bitcoin_fact sim t src s =
           create_unique_memory sim CATEGORY_BITCOIN_FACTS t meta (85 / 100) s1"
    by (simp add: record_bitcoin_fact_def s1_def meta_def datetime_now_def get_epoch_def)
  from create_unique_memory_effect [of sim CATEGORY_BITCOIN_FACTS t meta "85 / 100" s1]
  obtain new where
    e: "epoch (record_bitcoin_fact sim t src s) = epoch s1"
    and v: "events (record_bitcoin_fact sim t src s) = events s1"
    and n: "next_id s1 \<le> next_id (record_bitcoin_fact sim t src s)"
    and c: "categories (record_bitcoin_fact sim t src s) =
              (categories s1)(CATEGORY_BITCOIN_FACTS := categories s1 CATEGORY_BITCOIN_FACTS @ new)"
    and m: "\<forall>m \<in> set new. mem_id m = next_id s1 \<and> document m = t \<and> metadata m = meta"
    unfolding r by (elim conjE exE)
  have "\<forall>m \<in> set new. next_id s \<le> mem_id m \<and> document m = t
                 \<and> metadata m ''source'' = Some (MStr src)
                 \<and> metadata m ''epoch'' = Some (MInt (epoch s))"
    using m by (simp add: s1 meta_def)
  with e v n c show ?thesis
    unfolding s1 by (intro conjI exI [of _ new])
qed

lemma record_ordinals_knowledge_effect:
  "epoch (record_ordinals_knowledge sim t src s) = epoch s
   \<and> events (record_ordinals_knowledge sim t src s) = events s
   \<and> next_id s \<le> next_id (record_ordinals_knowledge sim t src s)
   \<and> (\<exists>new. categories (record_ordinals_knowledge sim t src s) =
                  (categories s)(CATEGORY_ORDINALS_KNOWLEDGE :=
                                   categories s CATEGORY_ORDINALS_KNOWLEDGE @ new)
          \<and> (\<forall>m \<in> set new. next_id s \<le> mem_id m \<and> document m = t
                 \<and> metadata m ''source'' = Some (MStr src)
                 \<and> metadata m ''epoch'' = Some (MInt (epoch s))))"
proof -
  define s1 where "s1 = snd (datetime_now s)"
  define meta where "meta = [''timestamp'' \<mapsto> MStr (clock s 0), ''source'' \<mapsto> MStr src,
                             ''epoch'' \<mapsto> MInt (epoch s)]"
  have s1: "epoch s1 = epoch s" "events s1 = events s" "next_id s1 = next_id s"
    "categories s1 = categories s"
    by (simp_all add: s1_def datetime_now_def)
  have r: "record_ordinals_knowledge sim t src s =
           create_unique_memory sim CATEGORY_ORDINALS_KNOWLEDGE t meta (85 / 100) s1"
    by (simp add: record_ordinals_knowledge_def s1_def meta_def datetime_now_def get_epoch_def)
  from create_unique_memory_effect [of sim CATEGORY_ORDINALS_KNOWLEDGE t meta "85 / 100" s1]
  obtain new where
    e: "epoch (record_ordinals_knowledge sim t src s) = epoch s1"
    and v: "events (record_ordinals_knowledge sim t src s) = events s1"
    and n: "next_id s1 \<le> next_id (record_ordinals_knowledge sim t src s)"
    and c: "categories (record_ordinals_knowledge sim t src s) =
              (categories s1)(CATEGORY_ORDINALS_KNOWLEDGE :=
                                categories s1 CATEGORY_ORDINALS_KNOWLEDGE @ new)"
    and m: "\<forall>m \<in> set new. mem_id m = next_id s1 \<and> document m = t \<and> metadata m = meta"
    unfolding r by (elim conjE exE)
  have "\<forall>m \<in> set new. next_id s \<le> mem_id m \<and> document m = t
                 \<and> metadata m ''source'' = Some (MStr src)
                 \<and> metadata m ''epoch'' = Some (MInt (epoch s))"
    using m by (simp add: s1 meta_def)
  with e v n c show ?thesis
    unfolding s1 by (intro conjI exI [of _ new])
qed

lemma fold_effect:
  assumes step: "\<And>t s. epoch (f t s) = epoch s \<and> events (f t s) = events s
       \<and> next_id s \<le> next_id (f t s)
       \<and> (\<exists>new. categories (f t s) = (categories s)(c := categories s c @ new)
              \<and> (\<forall>m \<in> set new. next_id s \<le> mem_id m \<and> document m = t
                     \<and> metadata m ''source'' = Some (MStr src)
                     \<and> metadata m ''epoch'' = Some (MInt (epoch s))))"
  shows "epoch (fold f ts s) = epoch s \<and> events (fold f ts s) = events s
       \<and> next_id s \<le> next_id (fold f ts s)
       \<and> (\<exists>new. categories (fold f ts s) = (categories s)(c := categories s c @ new)
              \<and> (\<forall>m \<in> set new. next_id s \<le> mem_id m \<and> document m \<in> set ts
                     \<and> metadata m ''source'' = Some (MStr src)
                     \<and> metadata m ''epoch'' = Some (MInt (epoch s))))"
proof (induction ts arbitrary: s)
  case Nil
  have "categories s = (categories s)(c := categories s c @ [])"
    by simp
  then show ?case
    by (intro conjI exI [of _ "[]"]) simp_all
next
  case (Cons t ts)
  from step [of t s] obtain new1 where
    e1: "epoch (f t s) = epoch s" and v1: "events (f t s) = events s"
    and n1: "next_id s \<le> next_id (f t s)"
    and c1: "categories (f t s) = (categories s)(c := categories s c @ new1)"
    and m1: "\<forall>m \<in> set new1. next_id s \<le> mem_id m \<and> document m = t
                     \<and> metadata m ''source'' = Some (MStr src)
                     \<and> metadata m ''epoch'' = Some (MInt (epoch s))"
    by (elim conjE exE)
  from Cons.IH [of "f t s"] obtain new2 where
    e2: "epoch (fold f ts (f t s)) = epoch (f t s)"
    and v2: "events (fold f ts (f t s)) = events (f t s)"
    and n2: "next_id (f t s) \<le> next_id (fold f ts (f t s))"
    and c2: "categories (fold f ts (f t s)) = (categories (f t s))(c := categories (f t s) c @ new2)"
    and m2: "\<forall>m \<in> set new2. next_id (f t s) \<le> mem_id m \<and> document m \<in> set ts
                     \<and> metadata m ''source'' = Some (MStr src)
                     \<and> metadata m ''epoch'' = Some (MInt (epoch (f t s)))"
    by (elim conjE exE)
  have c: "categories (fold f (t # ts) s) = (categories s)(c := categories s c @ (new1 @ new2))"
    by (simp add: c2 c1)
  have m: "\<forall>m \<in> set (new1 @ new2). next_id s \<le> mem_id m \<and> document m \<in> set (t # ts)
                     \<and> metadata m ''source'' = Some (MStr src)
                     \<and> metadata m ''epoch'' = Some (MInt (epoch s))"
    using m1 m2 n1 e1 by auto
  have "epoch (fold f (t # ts) s) = epoch s" "events (fold f (t # ts) s) = events s"
    "next_id s \<le> next_id (fold f (t # ts) s)"
    using e1 e2 v1 v2 n1 n2 by simp_all
  with c m show ?case
    by (intro conjI exI [of _ "new1 @ new2"])
qed

lemma optional_fold_effect:
  fixes s :: store and items :: "string list option"
  assumes step: "\<And>t s. epoch (f t s) = epoch s \<and> events (f t s) = events s
       \<and> next_id s \<le> next_id (f t s)
       \<and> (\<exists>new. categories (f t s) = (categories s)(c := categories s c @ new)
              \<and> (\<forall>m \<in> set new. next_id s \<le> mem_id m \<and> document m = t
                     \<and> metadata m ''source'' = Some (MStr src)
                     \<and> metadata m ''epoch'' = Some (MInt (epoch s))))"
  defines "s' \<equiv> (if truthy items then fold f (the items) s else s)"
  shows "epoch s' = epoch s \<and> events s' = events s \<and> next_id s \<le> next_id s'
       \<and> (\<exists>new. categories s' = (categories s)(c := categories s c @ new)
              \<and> (\<forall>m \<in> set new. next_id s \<le> mem_id m
                     \<and> (\<exists>ts. items = Some ts \<and> document m \<in> set ts)
                     \<and> metadata m ''source'' = Some (MStr src)
                     \<and> metadata m ''epoch'' = Some (MInt (epoch s))))"
proof (cases "truthy items")
  case False
  have "categories s = (categories s)(c := categories s c @ [])"
    by simp
  then show ?thesis
    using False by (intro conjI exI [of _ "[]"]) (simp_all add: s'_def)
next
  case True
  then obtain ts where ts: "items = Some ts"
    by (auto simp: truthy_def split: option.splits)
  from fold_effect [of f c src ts s, OF step] obtain new where
    e: "epoch (fold f ts s) = epoch s" and v: "events (fold f ts s) = events s"
    and n: "next_id s \<le> next_id (fold f ts s)"
    and c: "categories (fold f ts s) = (categories s)(c := categories s c @ new)"
    and m: "\<forall>m \<in> set new. next_id s \<le> mem_id m \<and> document m \<in> set ts
                     \<and> metadata m ''source'' = Some (MStr src)
                     \<and> metadata m ''epoch'' = Some (MInt (epoch s))"
    by (elim conjE exE)
  have s': "s' = fold f ts s"
    using True by (simp add: s'_def ts)
  have "\<forall>m \<in> set new. next_id s \<le> mem_id m
                     \<and> (\<exists>ts. items = Some ts \<and> document m \<in> set ts)
                     \<and> metadata m ''source'' = Some (MStr src)
                     \<and> metadata m ''epoch'' = Some (MInt (epoch s))"
    using m ts by simp
  with e v n c show ?thesis
    unfolding s' by (intro conjI exI [of _ new])
qed

lemma record_response_effect:
  "epoch (record_response sim user_id response new_facts new_knowledge s) = epoch s
   \<and> events (record_response sim user_id response new_facts new_knowledge s) =
       events s @ [(''Ord GPT responded to '' @ user_id @ '': '' @ take 50 response @ ''...'',
                    [''user_id'' \<mapsto> MStr user_id, ''message_type'' \<mapsto> MStr ''agent_response'',
                    ''epoch'' \<mapsto> MInt (epoch s)])]
   \<and> (\<exists>fs ks.
         categories (record_response sim user_id response new_facts new_knowledge s) =
           (categories s)
             (CATEGORY_CONVERSATIONS := categories s CATEGORY_CONVERSATIONS @
                [\<lparr>mem_id = next_id s, document = response,
                  metadata = [''timestamp'' \<mapsto> MStr (clock s 0), ''user_id'' \<mapsto> MStr user_id,
                              ''speaker'' \<mapsto> MStr ''ord_gpt'', ''epoch'' \<mapsto> MInt (epoch s)]\<rparr>],
              CATEGORY_BITCOIN_FACTS := categories s CATEGORY_BITCOIN_FACTS @ fs,
              CATEGORY_ORDINALS_KNOWLEDGE := categories s CATEGORY_ORDINALS_KNOWLEDGE @ ks)
         \<and> (\<forall>m \<in> set fs. next_id s < mem_id m
                \<and> (\<exists>ts. new_facts = Some ts \<and> document m \<in> set ts)
                \<and> metadata m ''source'' = Some (MStr ''conversation'')
                \<and> metadata m ''epoch'' = Some (MInt (epoch s)))
         \<and> (\<forall>m \<in> set ks. next_id s < mem_id m
                \<and> (\<exists>ts. new_knowledge = Some ts \<and> document m \<in> set ts)
                \<and> metadata m ''source'' = Some (MStr ''conversation'')
                \<and> metadata m ''epoch'' = Some (MInt (epoch s))))"
proof -
  define s1 where "s1 = record_agent_response user_id response s"
  define s2 where "s2 = (if truthy new_facts
      then fold (\<lambda>t. record_bitcoin_fact sim t ''conversation'') (the new_facts) s1 else s1)"
  define s3 where "s3 = (if truthy new_knowledge
      then fold (\<lambda>t. record_ordinals_knowledge sim t ''conversation'') (the new_knowledge) s2 else s2)"
  have r: "record_response sim user_id response new_facts new_knowledge s = s3"
    by (simp add: record_response_def Let_def s1_def s2_def s3_def)
  have e1: "epoch s1 = epoch s" and n1: "next_id s1 = Suc (next_id s)"
    and v1: "events s1 =
       events s @ [(''Ord GPT responded to '' @ user_id @ '': '' @ take 50 response @ ''...'',
                    [''user_id'' \<mapsto> MStr user_id, ''message_type'' \<mapsto> MStr ''agent_response'',
                    ''epoch'' \<mapsto> MInt (epoch s)])]"
    and c1: "categories s1 = (categories s)
             (CATEGORY_CONVERSATIONS := categories s CATEGORY_CONVERSATIONS @
                [\<lparr>mem_id = next_id s, document = response,
                  metadata = [''timestamp'' \<mapsto> MStr (clock s 0), ''user_id'' \<mapsto> MStr user_id,
                              ''speaker'' \<mapsto> MStr ''ord_gpt'', ''epoch'' \<mapsto> MInt (epoch s)]\<rparr>])"
    unfolding s1_def
    by (rule epoch_record_agent_response next_id_record_agent_response
        events_record_agent_response categories_record_agent_response)+
  from optional_fold_effect [of "\<lambda>t. record_bitcoin_fact sim t ''conversation''"
      CATEGORY_BITCOIN_FACTS "''conversation''" new_facts s1, OF record_bitcoin_fact_effect]
  obtain fs where
    e2: "epoch s2 = epoch s1" and v2: "events s2 = events s1" and n2: "next_id s1 \<le> next_id s2"
    and c2: "categories s2 =
               (categories s1)(CATEGORY_BITCOIN_FACTS := categories s1 CATEGORY_BITCOIN_FACTS @ fs)"
    and m2: "\<forall>m \<in> set fs. next_id s1 \<le> mem_id m
                     \<and> (\<exists>ts. new_facts = Some ts \<and> document m \<in> set ts)
                     \<and> metadata m ''source'' = Some (MStr ''conversation'')
                     \<and> metadata m ''epoch'' = Some (MInt (epoch s1))"
    unfolding s2_def [symmetric] by (elim conjE exE)
  from optional_fold_effect [of "\<lambda>t. record_ordinals_knowledge sim t ''conversation''"
      CATEGORY_ORDINALS_KNOWLEDGE "''conversation''" new_knowledge s2,
      OF record_ordinals_knowledge_effect]
  obtain ks where
    e3: "epoch s3 = epoch s2" and v3: "events s3 = events s2" and n3: "next_id s2 \<le> next_id s3"
    and c3: "categories s3 =
               (categories s2)(CATEGORY_ORDINALS_KNOWLEDGE :=
                                 categories s2 CATEGORY_ORDINALS_KNOWLEDGE @ ks)"
    and m3: "\<forall>m \<in> set ks. next_id s2 \<le> mem_id m
                     \<and> (\<exists>ts. new_knowledge = Some ts \<and> document m \<in> set ts)
                     \<and> metadata m ''source'' = Some (MStr ''conversation'')
                     \<and> metadata m ''epoch'' = Some (MInt (epoch s2))"
    unfolding s3_def [symmetric] by (elim conjE exE)
  have c: "categories s3 =
           (categories s)
             (CATEGORY_CONVERSATIONS := categories s CATEGORY_CONVERSATIONS @
                [\<lparr>mem_id = next_id s, document = response,
                  metadata = [''timestamp'' \<mapsto> MStr (clock s 0), ''user_id'' \<mapsto> MStr user_id,
                              ''speaker'' \<mapsto> MStr ''ord_gpt'', ''epoch'' \<mapsto> MInt (epoch s)]\<rparr>],
              CATEGORY_BITCOIN_FACTS := categories s CATEGORY_BITCOIN_FACTS @ fs,
              CATEGORY_ORDINALS_KNOWLEDGE := categories s CATEGORY_ORDINALS_KNOWLEDGE @ ks)"
    by (simp add: c3 c2 c1 category_names_distinct)
  have mf: "\<forall>m \<in> set fs. next_id s < mem_id m
                \<and> (\<exists>ts. new_facts = Some ts \<and> document m \<in> set ts)
                \<and> metadata m ''source'' = Some (MStr ''conversation'')
                \<and> metadata m ''epoch'' = Some (MInt (epoch s))"
    using m2 n1 e1 by auto
  have mk: "\<forall>m \<in> set ks. next_id s < mem_id m
                \<and> (\<exists>ts. new_knowledge = Some ts \<and> document m \<in> set ts)
                \<and> metadata m ''source'' = Some (MStr ''conversation'')
                \<and> metadata m ''epoch'' = Some (MInt (epoch s))"
    using m3 n2 n1 e2 e1 by auto
  have "epoch s3 = epoch s"
    using e1 e2 e3 by simp
  moreover have "events s3 =
       events s @ [(''Ord GPT responded to '' @ user_id @ '': '' @ take 50 response @ ''...'',
                    [''user_id'' \<mapsto> MStr user_id, ''message_type'' \<mapsto> MStr ''agent_response'',
                    ''epoch'' \<mapsto> MInt (epoch s)])]"
    using v1 v2 v3 by simp
  ultimately show ?thesis
    unfolding r using c mf mk by (intro conjI exI [of _ fs] exI [of _ ks])
qed

text \<open>
  What the two passes of \<^verbatim>\<open>record_response\<close> persist: an item is in the category afterwards, as
  itself or as a record at least 0.85 similar to it; and an item that has no such record
  before the call and no such other item beside it in the list is inserted.
\<close>

lemma fold_unique_appends:
  assumes step: "\<And>t s. categories (f t s) =
      (if list_ex (\<lambda>m. th \<le> sim t (document m)) (categories s c) then categories s
       else (categories s)(c := categories s c @ [r t s]))"
  shows "\<exists>new. categories (fold f ts s) c = categories s c @ new"
proof (induction ts arbitrary: s)
  case Nil
  show ?case by simp
next
  case (Cons t ts)
  from Cons.IH [of "f t s"] obtain new2 where
    "categories (fold f ts (f t s)) c = categories (f t s) c @ new2" ..
  moreover have "\<exists>new1. categories (f t s) c = categories s c @ new1"
    by (simp add: step)
  ultimately show ?case by auto
qed

lemma fold_unique_persists:
  assumes step: "\<And>t s. categories (f t s) =
      (if list_ex (\<lambda>m. th \<le> sim t (document m)) (categories s c) then categories s
       else (categories s)(c := categories s c @ [r t s]))"
    and doc: "\<And>t s. document (r t s) = t"
    and mem: "f0 \<in> set ts"
  shows "list_ex (\<lambda>m. document m = f0 \<or> th \<le> sim f0 (document m)) (categories (fold f ts s) c)"
  using mem
proof (induction ts arbitrary: s)
  case Nil
  then show ?case by simp
next
  case (Cons t ts)
  show ?case
  proof (cases "f0 = t")
    case True
    have 1: "list_ex (\<lambda>m. document m = f0 \<or> th \<le> sim f0 (document m)) (categories (f t s) c)"
      unfolding True by (auto simp: step doc list_ex_iff)
    from fold_unique_appends [of f th sim c r ts "f t s", OF step] obtain new where
      "categories (fold f ts (f t s)) c = categories (f t s) c @ new" ..
    with 1 show ?thesis by (auto simp: list_ex_iff)
  next
    case False
    with Cons.prems have "f0 \<in> set ts" by simp
    from Cons.IH [OF this, of "f t s"] show ?thesis by simp
  qed
qed

lemma fold_unique_inserts:
  assumes step: "\<And>t s. categories (f t s) =
      (if list_ex (\<lambda>m. th \<le> sim t (document m)) (categories s c) then categories s
       else (categories s)(c := categories s c @ [r t s]))"
    and doc: "\<And>t s. document (r t s) = t"
    and mem: "f0 \<in> set ts"
    and fresh: "\<not> list_ex (\<lambda>m. th \<le> sim f0 (document m)) (categories s c)"
    and others: "\<forall>g \<in> set ts. g \<noteq> f0 \<longrightarrow> \<not> th \<le> sim f0 g"
  shows "\<exists>new. categories (fold f ts s) c = categories s c @ new
           \<and> (\<exists>m \<in> set new. document m = f0)"
  using mem fresh others
proof (induction ts arbitrary: s)
  case Nil
  then show ?case by simp
next
  case (Cons t ts)
  from fold_unique_appends [of f th sim c r ts "f t s", OF step] obtain new2 where
    app: "categories (fold f ts (f t s)) c = categories (f t s) c @ new2" ..
  show ?case
  proof (cases "f0 = t")
    case True
    have "categories (f t s) c = categories s c @ [r t s]"
      using Cons.prems(2) unfolding True by (simp add: step)
    then have "categories (fold f (t # ts) s) c = categories s c @ ([r t s] @ new2)"
      using app by simp
    moreover have "\<exists>m \<in> set ([r t s] @ new2). document m = f0"
      by (simp add: doc True)
    ultimately show ?thesis by blast
  next
    case False
    with Cons.prems have mem': "f0 \<in> set ts" and nt: "\<not> th \<le> sim f0 t"
      and others': "\<forall>g \<in> set ts. g \<noteq> f0 \<longrightarrow> \<not> th \<le> sim f0 g"
      by auto
    obtain new1 where n1: "categories (f t s) c = categories s c @ new1"
      "\<forall>m \<in> set new1. document m = t"
    proof (cases "list_ex (\<lambda>m. th \<le> sim t (document m)) (categories s c)")
      case True
      then have "categories (f t s) c = categories s c @ []" by (simp add: step)
      then show ?thesis using that [of "[]"] by simp
    next
      case False
      then have "categories (f t s) c = categories s c @ [r t s]" by (simp add: step)
      then show ?thesis using that [of "[r t s]"] by (simp add: doc)
    qed
    have fresh': "\<not> list_ex (\<lambda>m. th \<le> sim f0 (document m)) (categories (f t s) c)"
      using Cons.prems(2) n1 nt by (auto simp: list_ex_iff)
    from Cons.IH [OF mem' fresh' others'] obtain new3 where
      n3: "categories (fold f ts (f t s)) c = categories (f t s) c @ new3"
      and m3: "\<exists>m \<in> set new3. document m = f0"
      by (elim conjE exE)
    have "categories (fold f (t # ts) s) c = categories s c @ (new1 @ new3)"
      using n3 n1 by simp
    moreover have "\<exists>m \<in> set (new1 @ new3). document m = f0"
      using m3 by auto
    ultimately show ?thesis by blast
  qed
qed

lemma record_bitcoin_fact_step:
  "categories (record_bitcoin_fact sim t src s) =
     (if list_ex (\<lambda>m. 85 / 100 \<le> sim t (document m)) (categories s CATEGORY_BITCOIN_FACTS)
      then categories s
      else (categories s)(CATEGORY_BITCOIN_FACTS := categories s CATEGORY_BITCOIN_FACTS @
             [\<lparr>mem_id = next_id s, document = t,
               metadata = [''timestamp'' \<mapsto> MStr (clock s 0), ''source'' \<mapsto> MStr src,
                           ''epoch'' \<mapsto> MInt (epoch s)]\<rparr>]))"
  by (simp add: record_bitcoin_fact_def datetime_now_def create_unique_memory_def
      create_memory_def get_epoch_def)

lemma record_ordinals_knowledge_step:
  "categories (record_ordinals_knowledge sim t src s) =
     (if list_ex (\<lambda>m. 85 / 100 \<le> sim t (document m)) (categories s CATEGORY_ORDINALS_KNOWLEDGE)
      then categories s
      else (categories s)(CATEGORY_ORDINALS_KNOWLEDGE := categories s CATEGORY_ORDINALS_KNOWLEDGE @
             [\<lparr>mem_id = next_id s, document = t,
               metadata = [''timestamp'' \<mapsto> MStr (clock s 0), ''source'' \<mapsto> MStr src,
                           ''epoch'' \<mapsto> MInt (epoch s)]\<rparr>]))"
  by (simp add: record_ordinals_knowledge_def datetime_now_def create_unique_memory_def
      create_memory_def get_epoch_def)

lemma record_response_folds:
  fixes sim user_id response new_facts new_knowledge s
  defines "s1 \<equiv> record_agent_response user_id response s"
  defines "s2 \<equiv> (if truthy new_facts
      then fold (\<lambda>t. record_bitcoin_fact sim t ''conversation'') (the new_facts) s1 else s1)"
  shows "record_response sim user_id response new_facts new_knowledge s =
           (if truthy new_knowledge
            then fold (\<lambda>t. record_ordinals_knowledge sim t ''conversation'') (the new_knowledge) s2
            else s2)"
    and "categories s1 CATEGORY_BITCOIN_FACTS = categories s CATEGORY_BITCOIN_FACTS"
    and "categories s2 CATEGORY_ORDINALS_KNOWLEDGE = categories s CATEGORY_ORDINALS_KNOWLEDGE"
    and "categories (record_response sim user_id response new_facts new_knowledge s)
           CATEGORY_BITCOIN_FACTS = categories s2 CATEGORY_BITCOIN_FACTS"
proof -
  show r: "record_response sim user_id response new_facts new_knowledge s =
           (if truthy new_knowledge
            then fold (\<lambda>t. record_ordinals_knowledge sim t ''conversation'') (the new_knowledge) s2
            else s2)"
    by (simp add: record_response_def Let_def s1_def s2_def)
  show c1: "categories s1 CATEGORY_BITCOIN_FACTS = categories s CATEGORY_BITCOIN_FACTS"
    by (simp add: s1_def categories_record_agent_response category_names_distinct)
  have o1: "categories s1 CATEGORY_ORDINALS_KNOWLEDGE = categories s CATEGORY_ORDINALS_KNOWLEDGE"
    by (simp add: s1_def categories_record_agent_response category_names_distinct)
  from optional_fold_effect [of "\<lambda>t. record_bitcoin_fact sim t ''conversation''"
      CATEGORY_BITCOIN_FACTS "''conversation''" new_facts s1, OF record_bitcoin_fact_effect]
  obtain fs where "categories s2 =
               (categories s1)(CATEGORY_BITCOIN_FACTS := categories s1 CATEGORY_BITCOIN_FACTS @ fs)"
    unfolding s2_def [symmetric] by (elim conjE exE)
  then show "categories s2 CATEGORY_ORDINALS_KNOWLEDGE = categories s CATEGORY_ORDINALS_KNOWLEDGE"
    by (simp add: o1 category_names_distinct)
  from optional_fold_effect [of "\<lambda>t. record_ordinals_knowledge sim t ''conversation''"
      CATEGORY_ORDINALS_KNOWLEDGE "''conversation''" new_knowledge s2,
      OF record_ordinals_knowledge_effect]
  obtain ks where "categories (record_response sim user_id response new_facts new_knowledge s) =
               (categories s2)(CATEGORY_ORDINALS_KNOWLEDGE :=
                                 categories s2 CATEGORY_ORDINALS_KNOWLEDGE @ ks)"
    unfolding r [symmetric] by (elim conjE exE)
  then show "categories (record_response sim user_id response new_facts new_knowledge s)
           CATEGORY_BITCOIN_FACTS = categories s2 CATEGORY_BITCOIN_FACTS"
    by (simp add: category_names_distinct)
qed

lemma record_response_persists_fact:
  assumes nf: "new_facts = Some ts" and mem: "f0 \<in> set ts"
  shows "list_ex (\<lambda>m. document m = f0 \<or> 85 / 100 \<le> sim f0 (document m))
           (categories (record_response sim user_id response new_facts new_knowledge s)
              CATEGORY_BITCOIN_FACTS)"
    and "\<not> list_ex (\<lambda>m. 85 / 100 \<le> sim f0 (document m)) (categories s CATEGORY_BITCOIN_FACTS) \<Longrightarrow>
         \<forall>g \<in> set ts. g \<noteq> f0 \<longrightarrow> \<not> 85 / 100 \<le> sim f0 g \<Longrightarrow>
         \<exists>new. categories (record_response sim user_id response new_facts new_knowledge s)
                  CATEGORY_BITCOIN_FACTS = categories s CATEGORY_BITCOIN_FACTS @ new
              \<and> (\<exists>m \<in> set new. document m = f0)"
proof -
  let ?s1 = "record_agent_response user_id response s"
  let ?F = "\<lambda>t. record_bitcoin_fact sim t ''conversation''"
  have t: "truthy new_facts"
    using nf mem by (auto simp: truthy_def)
  have c: "categories (record_response sim user_id response new_facts new_knowledge s)
             CATEGORY_BITCOIN_FACTS = categories (fold ?F ts ?s1) CATEGORY_BITCOIN_FACTS"
    using record_response_folds(4) [of sim user_id response new_facts new_knowledge s] t nf
    by simp
  have c1: "categories ?s1 CATEGORY_BITCOIN_FACTS = categories s CATEGORY_BITCOIN_FACTS"
    by (rule record_response_folds(2))
  show "list_ex (\<lambda>m. document m = f0 \<or> 85 / 100 \<le> sim f0 (document m))
           (categories (record_response sim user_id response new_facts new_knowledge s)
              CATEGORY_BITCOIN_FACTS)"
    unfolding c
    by (rule fold_unique_persists [where f = ?F and sim = sim, OF record_bitcoin_fact_step _ mem])
      simp
  show "\<exists>new. categories (record_response sim user_id response new_facts new_knowledge s)
                  CATEGORY_BITCOIN_FACTS = categories s CATEGORY_BITCOIN_FACTS @ new
              \<and> (\<exists>m \<in> set new. document m = f0)"
    if "\<not> list_ex (\<lambda>m. 85 / 100 \<le> sim f0 (document m)) (categories s CATEGORY_BITCOIN_FACTS)"
      and "\<forall>g \<in> set ts. g \<noteq> f0 \<longrightarrow> \<not> 85 / 100 \<le> sim f0 g"
    unfolding c c1 [symmetric]
    by (rule fold_unique_inserts [where f = ?F and sim = sim, OF record_bitcoin_fact_step _ mem])
      (use that c1 in simp_all)
qed

lemma record_response_persists_knowledge:
  assumes nk: "new_knowledge = Some ts" and mem: "k0 \<in> set ts"
  shows "list_ex (\<lambda>m. document m = k0 \<or> 85 / 100 \<le> sim k0 (document m))
           (categories (record_response sim user_id response new_facts new_knowledge s)
              CATEGORY_ORDINALS_KNOWLEDGE)"
    and "\<not> list_ex (\<lambda>m. 85 / 100 \<le> sim k0 (document m))
             (categories s CATEGORY_ORDINALS_KNOWLEDGE) \<Longrightarrow>
         \<forall>g \<in> set ts. g \<noteq> k0 \<longrightarrow> \<not> 85 / 100 \<le> sim k0 g \<Longrightarrow>
         \<exists>new. categories (record_response sim user_id response new_facts new_knowledge s)
                  CATEGORY_ORDINALS_KNOWLEDGE = categories s CATEGORY_ORDINALS_KNOWLEDGE @ new
              \<and> (\<exists>m \<in> set new. document m = k0)"
proof -
  let ?s1 = "record_agent_response user_id response s"
  let ?s2 = "if truthy new_facts
      then fold (\<lambda>t. record_bitcoin_fact sim t ''conversation'') (the new_facts) ?s1 else ?s1"
  let ?K = "\<lambda>t. record_ordinals_knowledge sim t ''conversation''"
  have t: "truthy new_knowledge"
    using nk mem by (auto simp: truthy_def)
  have c: "record_response sim user_id response new_facts new_knowledge s = fold ?K ts ?s2"
    using record_response_folds(1) [of sim user_id response new_facts new_knowledge s] t nk
    by simp
  have c2: "categories ?s2 CATEGORY_ORDINALS_KNOWLEDGE = categories s CATEGORY_ORDINALS_KNOWLEDGE"
    by (rule record_response_folds(3))
  show "list_ex (\<lambda>m. document m = k0 \<or> 85 / 100 \<le> sim k0 (document m))
           (categories (record_response sim user_id response new_facts new_knowledge s)
              CATEGORY_ORDINALS_KNOWLEDGE)"
    unfolding c
    by (rule fold_unique_persists [where f = ?K and sim = sim,
          OF record_ordinals_knowledge_step _ mem]) simp
  show "\<exists>new. categories (record_response sim user_id response new_facts new_knowledge s)
                  CATEGORY_ORDINALS_KNOWLEDGE = categories s CATEGORY_ORDINALS_KNOWLEDGE @ new
              \<and> (\<exists>m \<in> set new. document m = k0)"
    if "\<not> list_ex (\<lambda>m. 85 / 100 \<le> sim k0 (document m))
             (categories s CATEGORY_ORDINALS_KNOWLEDGE)"
      and "\<forall>g \<in> set ts. g \<noteq> k0 \<longrightarrow> \<not> 85 / 100 \<le> sim k0 g"
    unfolding c c2 [symmetric]
    by (rule fold_unique_inserts [where f = ?K and sim = sim,
          OF record_ordinals_knowledge_step _ mem]) (use that c2 in simp_all)
qed

subsection \<open>One operation, and a sequence of them\<close>

lemma append_at:
  assumes "categories s' = (categories s)(a := categories s a @ xs)" "\<forall>m \<in> set xs. P m"
  shows "\<exists>new. categories s' c = categories s c @ new \<and> (\<forall>m \<in> set new. P m)"
proof (cases "c = a")
  case True
  with assms show ?thesis by (intro exI [of _ xs]) simp
next
  case False
  with assms show ?thesis by (intro exI [of _ "[]"]) simp
qed

lemma append_at3:
  assumes "categories s' = (categories s)(CATEGORY_CONVERSATIONS := categories s CATEGORY_CONVERSATIONS @ xs,
              CATEGORY_BITCOIN_FACTS := categories s CATEGORY_BITCOIN_FACTS @ ys,
              CATEGORY_ORDINALS_KNOWLEDGE := categories s CATEGORY_ORDINALS_KNOWLEDGE @ zs)"
    "\<forall>m \<in> set xs. P m" "\<forall>m \<in> set ys. P m" "\<forall>m \<in> set zs. P m"
  shows "\<exists>new. categories s' c = categories s c @ new \<and> (\<forall>m \<in> set new. P m)"
proof -
  consider "c = CATEGORY_CONVERSATIONS" | "c = CATEGORY_BITCOIN_FACTS"
    | "c = CATEGORY_ORDINALS_KNOWLEDGE"
    | "c \<noteq> CATEGORY_CONVERSATIONS" "c \<noteq> CATEGORY_BITCOIN_FACTS" "c \<noteq> CATEGORY_ORDINALS_KNOWLEDGE"
    by blast
  then show ?thesis
  proof cases
    case 1
    with assms show ?thesis by (intro exI [of _ xs]) (simp add: category_names_distinct)
  next
    case 2
    with assms show ?thesis by (intro exI [of _ ys]) (simp add: category_names_distinct)
  next
    case 3
    with assms show ?thesis by (intro exI [of _ zs]) (simp add: category_names_distinct)
  next
    case 4
    with assms show ?thesis by (intro exI [of _ "[]"]) simp
  qed
qed

lemma apply_op_epoch:
  "op \<noteq> InitializeMemory \<Longrightarrow> epoch s \<le> epoch (apply_op sim op s)"
proof (cases op)
  case (RecordBitcoinFact t src)
  then show ?thesis using record_bitcoin_fact_effect [of sim t src s] by simp
next
  case (RecordOrdinalsKnowledge t src)
  then show ?thesis using record_ordinals_knowledge_effect [of sim t src s] by simp
next
  case (RecordResponse u r nf nk)
  then show ?thesis using record_response_effect [of sim u r nf nk s] by simp
next
  case (ProcessMessage u m)
  then show ?thesis
    by (simp add: process_message_def generate_context_def Let_def increment_epoch_def
        epoch_record_user_message)
qed (simp_all add: epoch_record_user_message epoch_record_agent_response
    record_user_preference_frame)

lemma apply_op_stamps:
  assumes "op \<noteq> InitializeMemory" "c \<noteq> CATEGORY_USER_PREFERENCES"
  shows "\<exists>new. categories (apply_op sim op s) c = categories s c @ new
           \<and> (\<forall>m \<in> set new. metadata m ''epoch'' = Some (MInt (epoch (apply_op sim op s))))"
proof (cases op)
  case (RecordUserMessage u m)
  show ?thesis
    unfolding RecordUserMessage apply_op.simps
    by (rule append_at [OF categories_record_user_message]) (simp add: epoch_record_user_message)
next
  case (RecordAgentResponse u m)
  show ?thesis
    unfolding RecordAgentResponse apply_op.simps
    by (rule append_at [OF categories_record_agent_response]) (simp add: epoch_record_agent_response)
next
  case (RecordBitcoinFact t src)
  from record_bitcoin_fact_effect [of sim t src s] obtain new where
    "epoch (record_bitcoin_fact sim t src s) = epoch s"
    "categories (record_bitcoin_fact sim t src s) =
       (categories s)(CATEGORY_BITCOIN_FACTS := categories s CATEGORY_BITCOIN_FACTS @ new)"
    "\<forall>m \<in> set new. next_id s \<le> mem_id m \<and> document m = t
                 \<and> metadata m ''source'' = Some (MStr src)
                 \<and> metadata m ''epoch'' = Some (MInt (epoch s))"
    by (elim conjE exE)
  then show ?thesis
    unfolding RecordBitcoinFact apply_op.simps
    by (intro append_at [where xs = new]) simp_all
next
  case (RecordOrdinalsKnowledge t src)
  from record_ordinals_knowledge_effect [of sim t src s] obtain new where
    "epoch (record_ordinals_knowledge sim t src s) = epoch s"
    "categories (record_ordinals_knowledge sim t src s) =
       (categories s)(CATEGORY_ORDINALS_KNOWLEDGE := categories s CATEGORY_ORDINALS_KNOWLEDGE @ new)"
    "\<forall>m \<in> set new. next_id s \<le> mem_id m \<and> document m = t
                 \<and> metadata m ''source'' = Some (MStr src)
                 \<and> metadata m ''epoch'' = Some (MInt (epoch s))"
    by (elim conjE exE)
  then show ?thesis
    unfolding RecordOrdinalsKnowledge apply_op.simps
    by (intro append_at [where xs = new]) simp_all
next
  case (RecordUserPreference u t v)
  with assms(2) show ?thesis
    by (intro exI [of _ "[]"]) (simp add: record_user_preference_frame)
next
  case (ProcessMessage u m)
  have "categories (snd (process_message sim u m s)) =
          (categories s)(CATEGORY_CONVERSATIONS := categories s CATEGORY_CONVERSATIONS @
            [\<lparr>mem_id = next_id s, document = m,
              metadata = [''timestamp'' \<mapsto> MStr (clock s 0), ''user_id'' \<mapsto> MStr u,
                          ''speaker'' \<mapsto> MStr ''user'', ''epoch'' \<mapsto> MInt (epoch s + 1)]\<rparr>])"
    "epoch (snd (process_message sim u m s)) = epoch s + 1"
    by (simp_all add: process_message_def generate_context_def Let_def increment_epoch_def
        categories_record_user_message epoch_record_user_message)
  then show ?thesis
    unfolding ProcessMessage apply_op.simps
    by (intro append_at [where xs = "[\<lparr>mem_id = next_id s, document = m,
              metadata = [''timestamp'' \<mapsto> MStr (clock s 0), ''user_id'' \<mapsto> MStr u,
                          ''speaker'' \<mapsto> MStr ''user'', ''epoch'' \<mapsto> MInt (epoch s + 1)]\<rparr>]"])
      simp_all
next
  case (RecordResponse u r nf nk)
  from record_response_effect [of sim u r nf nk s] obtain fs ks where
    e: "epoch (record_response sim u r nf nk s) = epoch s"
    and c: "categories (record_response sim u r nf nk s) =
           (categories s)
             (CATEGORY_CONVERSATIONS := categories s CATEGORY_CONVERSATIONS @
                [\<lparr>mem_id = next_id s, document = r,
                  metadata = [''timestamp'' \<mapsto> MStr (clock s 0), ''user_id'' \<mapsto> MStr u,
                              ''speaker'' \<mapsto> MStr ''ord_gpt'', ''epoch'' \<mapsto> MInt (epoch s)]\<rparr>],
              CATEGORY_BITCOIN_FACTS := categories s CATEGORY_BITCOIN_FACTS @ fs,
              CATEGORY_ORDINALS_KNOWLEDGE := categories s CATEGORY_ORDINALS_KNOWLEDGE @ ks)"
    and mf: "\<forall>m \<in> set fs. next_id s < mem_id m
                \<and> (\<exists>ts. nf = Some ts \<and> document m \<in> set ts)
                \<and> metadata m ''source'' = Some (MStr ''conversation'')
                \<and> metadata m ''epoch'' = Some (MInt (epoch s))"
    and mk: "\<forall>m \<in> set ks. next_id s < mem_id m
                \<and> (\<exists>ts. nk = Some ts \<and> document m \<in> set ts)
                \<and> metadata m ''source'' = Some (MStr ''conversation'')
                \<and> metadata m ''epoch'' = Some (MInt (epoch s))"
    by (elim conjE exE)
  show ?thesis
    unfolding RecordResponse apply_op.simps e
    using mf mk by (intro append_at3 [OF c]) simp_all
next
  case InitializeMemory
  with assms(1) show ?thesis by simp
qed

lemma run_effect:
  assumes "InitializeMemory \<notin> set ops" "c \<noteq> CATEGORY_USER_PREFERENCES"
  shows "epoch s \<le> epoch (run sim ops s)
       \<and> (\<exists>new. categories (run sim ops s) c = categories s c @ new
              \<and> (\<forall>m \<in> set new. \<exists>e. metadata m ''epoch'' = Some (MInt e)
                     \<and> epoch s \<le> e \<and> e \<le> epoch (run sim ops s)))"
  using assms(1)
proof (induction ops arbitrary: s)
  case Nil
  show ?case by (simp add: run_def)
next
  case (Cons op ops)
  let ?s1 = "apply_op sim op s"
  have op: "op \<noteq> InitializeMemory" and ops: "InitializeMemory \<notin> set ops"
    using Cons.prems by auto
  have r: "run sim (op # ops) s = run sim ops ?s1"
    by (simp add: run_def)
  from apply_op_stamps [OF op assms(2), of sim s] obtain new1 where
    c1: "categories ?s1 c = categories s c @ new1"
    and m1: "\<forall>m \<in> set new1. metadata m ''epoch'' = Some (MInt (epoch ?s1))"
    by (elim conjE exE)
  from Cons.IH [OF ops, of ?s1] obtain new2 where
    e2: "epoch ?s1 \<le> epoch (run sim ops ?s1)"
    and c2: "categories (run sim ops ?s1) c = categories ?s1 c @ new2"
    and m2: "\<forall>m \<in> set new2. \<exists>e. metadata m ''epoch'' = Some (MInt e)
                     \<and> epoch ?s1 \<le> e \<and> e \<le> epoch (run sim ops ?s1)"
    by (elim conjE exE)
  have e1: "epoch s \<le> epoch ?s1"
    by (rule apply_op_epoch [OF op])
  have "\<forall>m \<in> set (new1 @ new2). \<exists>e. metadata m ''epoch'' = Some (MInt e)
                     \<and> epoch s \<le> e \<and> e \<le> epoch (run sim ops ?s1)"
    using m1 m2 e1 e2 by (auto intro: order_trans)
  moreover have "categories (run sim ops ?s1) c = categories s c @ (new1 @ new2)"
    by (simp add: c2 c1)
  moreover have "epoch s \<le> epoch (run sim ops ?s1)"
    using e1 e2 by simp
  ultimately show ?case
    unfolding r by (intro conjI exI [of _ "new1 @ new2"])
qed

lemma apply_op_events:
  assumes "op \<noteq> InitializeMemory"
  shows "\<exists>new. events (apply_op sim op s) = events s @ new
           \<and> (\<forall>e \<in> set new. snd e ''epoch'' = Some (MInt (epoch (apply_op sim op s))))"
proof (cases op)
  case (RecordUserMessage u m)
  show ?thesis
    unfolding RecordUserMessage apply_op.simps
    by (rule exI [of _ "[(''User '' @ u @ '' said: '' @ m,
                  [''user_id'' \<mapsto> MStr u, ''message_type'' \<mapsto> MStr ''user_message'',
                    ''epoch'' \<mapsto> MInt (epoch s)])]"])
      (simp add: events_record_user_message epoch_record_user_message)
next
  case (RecordAgentResponse u m)
  show ?thesis
    unfolding RecordAgentResponse apply_op.simps
    by (rule exI [of _ "[(''Ord GPT responded to '' @ u @ '': '' @ take 50 m @ ''...'',
                  [''user_id'' \<mapsto> MStr u, ''message_type'' \<mapsto> MStr ''agent_response'',
                    ''epoch'' \<mapsto> MInt (epoch s)])]"])
      (simp add: events_record_agent_response epoch_record_agent_response)
next
  case (RecordBitcoinFact t src)
  then show ?thesis
    using record_bitcoin_fact_effect [of sim t src s] by (intro exI [of _ "[]"]) simp
next
  case (RecordOrdinalsKnowledge t src)
  then show ?thesis
    using record_ordinals_knowledge_effect [of sim t src s] by (intro exI [of _ "[]"]) simp
next
  case (RecordUserPreference u t v)
  then show ?thesis
    by (intro exI [of _ "[]"]) (simp add: record_user_preference_frame)
next
  case (ProcessMessage u m)
  have "events (snd (process_message sim u m s)) =
          events s @ [(''User '' @ u @ '' said: '' @ m,
                  [''user_id'' \<mapsto> MStr u, ''message_type'' \<mapsto> MStr ''user_message'',
                    ''epoch'' \<mapsto> MInt (epoch s + 1)])]"
    "epoch (snd (process_message sim u m s)) = epoch s + 1"
    by (simp_all add: process_message_def generate_context_def Let_def increment_epoch_def
        events_record_user_message epoch_record_user_message)
  then show ?thesis
    unfolding ProcessMessage apply_op.simps
    by (intro exI [of _ "[(''User '' @ u @ '' said: '' @ m,
                  [''user_id'' \<mapsto> MStr u, ''message_type'' \<mapsto> MStr ''user_message'',
                    ''epoch'' \<mapsto> MInt (epoch s + 1)])]"]) simp
next
  case (RecordResponse u r nf nk)
  note eff = record_response_effect [of sim u r nf nk s]
  have "epoch (record_response sim u r nf nk s) = epoch s"
    "events (record_response sim u r nf nk s) =
       events s @ [(''Ord GPT responded to '' @ u @ '': '' @ take 50 r @ ''...'',
                    [''user_id'' \<mapsto> MStr u, ''message_type'' \<mapsto> MStr ''agent_response'',
                    ''epoch'' \<mapsto> MInt (epoch s)])]"
    using eff [THEN conjunct1] eff [THEN conjunct2, THEN conjunct1] by this+
  then show ?thesis
    unfolding RecordResponse apply_op.simps
    by (intro exI [of _ "[(''Ord GPT responded to '' @ u @ '': '' @ take 50 r @ ''...'',
                    [''user_id'' \<mapsto> MStr u, ''message_type'' \<mapsto> MStr ''agent_response'',
                    ''epoch'' \<mapsto> MInt (epoch s)])]"]) simp
next
  case InitializeMemory
  with assms show ?thesis by simp
qed

lemma run_events:
  assumes "InitializeMemory \<notin> set ops"
  shows "\<exists>new. events (run sim ops s) = events s @ new
           \<and> (\<forall>e \<in> set new. \<exists>k. snd e ''epoch'' = Some (MInt k)
                  \<and> epoch s \<le> k \<and> k \<le> epoch (run sim ops s))"
  using assms
proof (induction ops arbitrary: s)
  case Nil
  show ?case by (simp add: run_def)
next
  case (Cons op ops)
  let ?s1 = "apply_op sim op s"
  have op: "op \<noteq> InitializeMemory" and ops: "InitializeMemory \<notin> set ops"
    using Cons.prems by auto
  have r: "run sim (op # ops) s = run sim ops ?s1"
    by (simp add: run_def)
  from apply_op_events [OF op, of sim s] obtain new1 where
    c1: "events ?s1 = events s @ new1"
    and m1: "\<forall>e \<in> set new1. snd e ''epoch'' = Some (MInt (epoch ?s1))"
    by (elim conjE exE)
  from Cons.IH [OF ops, of ?s1] obtain new2 where
    c2: "events (run sim ops ?s1) = events ?s1 @ new2"
    and m2: "\<forall>e \<in> set new2. \<exists>k. snd e ''epoch'' = Some (MInt k)
                     \<and> epoch ?s1 \<le> k \<and> k \<le> epoch (run sim ops ?s1)"
    by (elim conjE exE)
  have e1: "epoch s \<le> epoch ?s1"
    by (rule apply_op_epoch [OF op])
  have e2: "epoch ?s1 \<le> epoch (run sim ops ?s1)"
    using run_effect [OF ops, of CATEGORY_CONVERSATIONS ?s1 sim]
    by (simp add: category_names_distinct)
  have "\<forall>e \<in> set (new1 @ new2). \<exists>k. snd e ''epoch'' = Some (MInt k)
                     \<and> epoch s \<le> k \<and> k \<le> epoch (run sim ops ?s1)"
    using m1 m2 e1 e2 by (auto intro: order_trans)
  moreover have "events (run sim ops ?s1) = events s @ (new1 @ new2)"
    by (simp add: c2 c1)
  ultimately show ?case
    unfolding r by (intro conjI exI [of _ "new1 @ new2"])
qed

section \<open>Identifiers stay distinct\<close>

text \<open>
  Every store the broker can reach from the empty one has well-formed identifiers: each
  operation keeps them so.
\<close>

lemma ids_ok_fields [simp]:
  "ids_ok (s\<lparr>clock := k\<rparr>) = ids_ok s"
  "ids_ok (s\<lparr>epoch := e\<rparr>) = ids_ok s"
  "ids_ok (s\<lparr>events := v\<rparr>) = ids_ok s"
  by (simp_all add: ids_ok_def)

lemma ids_ok_create_memory:
  assumes "ids_ok s"
  shows "ids_ok (create_memory c t meta s)"
proof -
  have d: "distinct (map mem_id (categories s c'))"
    and b: "\<forall>m \<in> set (categories s c'). mem_id m < next_id s" for c'
    using assms by (simp_all add: ids_ok_def)
  have "next_id s \<notin> mem_id ` set (categories s c)"
    using b [of c] by auto
  then show ?thesis
    unfolding ids_ok_def create_memory_def
    using d b by (auto simp: less_Suc_eq)
qed

lemma ids_ok_update_memory:
  assumes "ids_ok s"
  shows "ids_ok (update_memory c i meta s)"
proof -
  define g where "g = (\<lambda>m :: memory. if mem_id m = i then m\<lparr>metadata := metadata m ++ meta\<rparr> else m)"
  have g: "mem_id (g m) = mem_id m" for m
    by (simp add: g_def)
  have u: "categories (update_memory c i meta s) = (categories s)(c := map g (categories s c))"
    "next_id (update_memory c i meta s) = next_id s"
    by (simp_all add: update_memory_def g_def)
  show ?thesis
    using assms unfolding ids_ok_def u by (auto simp: g o_def)
qed

lemma ids_ok_create_unique_memory:
  "ids_ok s \<Longrightarrow> ids_ok (create_unique_memory sim c t meta th s)"
  by (simp add: create_unique_memory_def ids_ok_create_memory)

lemma ids_ok_fold:
  "(\<And>x s. ids_ok s \<Longrightarrow> ids_ok (f x s)) \<Longrightarrow> ids_ok s \<Longrightarrow> ids_ok (fold f xs s)"
  by (induction xs arbitrary: s) auto

lemma ids_ok_empty_store: "ids_ok empty_store"
  by (simp add: ids_ok_def empty_store_def)

lemma ids_ok_seed_one: "ids_ok s \<Longrightarrow> ids_ok (seed_one c t s)"
  by (simp add: seed_one_def datetime_now_def ids_ok_create_memory)

lemma ids_ok_record_agent_response: "ids_ok s \<Longrightarrow> ids_ok (record_agent_response u m s)"
  by (simp add: get_epoch_def record_agent_response_def datetime_now_def create_event_def Let_def
      ids_ok_create_memory)

lemma ids_ok_record_user_message: "ids_ok s \<Longrightarrow> ids_ok (record_user_message u m s)"
  by (simp add: get_epoch_def record_user_message_def datetime_now_def create_event_def Let_def
      ids_ok_create_memory)

lemma ids_ok_record_bitcoin_fact: "ids_ok s \<Longrightarrow> ids_ok (record_bitcoin_fact sim t src s)"
  by (simp add: record_bitcoin_fact_def datetime_now_def ids_ok_create_unique_memory)

lemma ids_ok_record_ordinals_knowledge:
  "ids_ok s \<Longrightarrow> ids_ok (record_ordinals_knowledge sim t src s)"
  by (simp add: record_ordinals_knowledge_def datetime_now_def ids_ok_create_unique_memory)

lemma ids_ok_apply_op: "ids_ok s \<Longrightarrow> ids_ok (apply_op sim op s)"
proof (cases op)
  case (RecordUserPreference u t v)
  then show "ids_ok s \<Longrightarrow> ids_ok (apply_op sim op s)"
    by (simp add: record_user_preference_def datetime_now_def ids_ok_create_memory
        ids_ok_update_memory split: list.splits)
next
  case (ProcessMessage u m)
  then show "ids_ok s \<Longrightarrow> ids_ok (apply_op sim op s)"
    by (simp add: process_message_def generate_context_def Let_def increment_epoch_def
        ids_ok_record_user_message)
next
  case (RecordResponse u r nf nk)
  assume s: "ids_ok s"
  have 1: "ids_ok (record_agent_response u r s)"
    using s by (rule ids_ok_record_agent_response)
  have 2: "ids_ok (fold (\<lambda>t. record_bitcoin_fact sim t ''conversation'') ts s')"
    if "ids_ok s'" for ts s'
    using that by (intro ids_ok_fold ids_ok_record_bitcoin_fact)
  have 3: "ids_ok (fold (\<lambda>t. record_ordinals_knowledge sim t ''conversation'') ts s')"
    if "ids_ok s'" for ts s'
    using that by (intro ids_ok_fold ids_ok_record_ordinals_knowledge)
  show "ids_ok (apply_op sim op s)"
    unfolding RecordResponse apply_op.simps record_response_def Let_def
    using 1 by (auto intro!: 2 3)
next
  case InitializeMemory
  assume s: "ids_ok s"
  have "ids_ok (seed_initial_knowledge (reset_epoch s))"
    unfolding seed_initial_knowledge_def
    using s by (intro ids_ok_fold ids_ok_seed_one) (simp_all add: reset_epoch_def)
  then show "ids_ok (apply_op sim op s)"
    using s by (simp add: InitializeMemory initialize_memory_def Let_def reset_epoch_def)
qed (simp_all add: ids_ok_record_user_message ids_ok_record_agent_response
    ids_ok_record_bitcoin_fact ids_ok_record_ordinals_knowledge)

lemma ids_ok_run: "ids_ok s \<Longrightarrow> ids_ok (run sim ops s)"
  unfolding run_def by (rule ids_ok_fold) (rule ids_ok_apply_op)

lemma reachable_ids_distinct:
  "distinct (map mem_id (categories (run sim ops empty_store) c))"
  using ids_ok_run [OF ids_ok_empty_store, of sim ops] by (simp add: ids_ok_def)

section \<open>Context assembly\<close>

text \<open>
  C1. For every user and message, \<^verbatim>\<open>process_message\<close> leaves the epoch counter exactly one
  above its value before the call; the bundle it returns reports that value.
\<close>

theorem process_message_increments_epoch:
  "epoch (snd (process_message sim user_id message s)) = epoch s + 1
   \<and> current_epoch (fst (process_message sim user_id message s)) = epoch s + 1"
  by (simp add: process_message_def generate_context_def Let_def increment_epoch_def get_epoch_def
      epoch_record_user_message)




section \<open>Retrieval\<close>

text \<open>
  C3. \<^verbatim>\<open>get_conversation_history\<close> with limit \<open>L\<close> returns at most \<open>L\<close> turns; they are
  the store's newest-first listing of the user's conversation records, reversed: the last
  \<open>L\<close> of the user's records in the order they were written, oldest first.
\<close>

theorem get_conversation_history_chronological:
  "length (get_conversation_history user_id limit s) \<le> limit
   \<and> get_conversation_history user_id limit s =
       map format_turn
         (rev (get_memories CATEGORY_CONVERSATIONS [(''user_id'', MStr user_id)] limit Desc s))
   \<and> get_conversation_history user_id limit s =
       map format_turn
         (let mine = filter (\<lambda>m. metadata m ''user_id'' = Some (MStr user_id))
                       (categories s CATEGORY_CONVERSATIONS)
          in drop (length mine - limit) mine)"
  by (simp add: get_conversation_history_def get_memories_def Let_def rev_take_rev matches_user_id)

section \<open>Preferences\<close>

lemma record_user_preference_effect:
  assumes ids: "distinct (map mem_id (categories s CATEGORY_USER_PREFERENCES))"
  shows "(case search_memory sim CATEGORY_USER_PREFERENCES preference_type default_n_results
               [(''user_id'', MStr user_id)] s of
            m # rest \<Rightarrow>
              categories (record_user_preference sim user_id preference_type preference_value s) =
                (categories s)(CATEGORY_USER_PREFERENCES :=
                   map (\<lambda>r. if r = m
                            then m\<lparr>metadata := (metadata m)(''value'' \<mapsto> MStr preference_value,
                                                             ''timestamp'' \<mapsto> MStr (clock s 0))\<rparr>
                            else r)
                     (categories s CATEGORY_USER_PREFERENCES))
          | [] \<Rightarrow>
              categories (record_user_preference sim user_id preference_type preference_value s) =
                (categories s)(CATEGORY_USER_PREFERENCES :=
                   categories s CATEGORY_USER_PREFERENCES @
                     [\<lparr>mem_id = next_id s, document = preference_type,
                       metadata = [''user_id'' \<mapsto> MStr user_id,
                                   ''value'' \<mapsto> MStr preference_value,
                                   ''timestamp'' \<mapsto> MStr (clock s 0)]\<rparr>]))
         \<and> events (record_user_preference sim user_id preference_type preference_value s) = events s
         \<and> epoch (record_user_preference sim user_id preference_type preference_value s) = epoch s"
proof (cases "search_memory sim CATEGORY_USER_PREFERENCES preference_type default_n_results
               [(''user_id'', MStr user_id)] s")
  case Nil
  then show ?thesis
    by (simp add: record_user_preference_def datetime_now_def create_memory_def)
next
  case (Cons m rest)
  then have "m \<in> set (categories s CATEGORY_USER_PREFERENCES)"
    using search_memory_subset [of sim CATEGORY_USER_PREFERENCES preference_type default_n_results
        "[(''user_id'', MStr user_id)]" s]
    by auto
  then have eq: "map (\<lambda>r. if mem_id r = mem_id m
                    then r\<lparr>metadata := metadata r ++ [''value'' \<mapsto> MStr preference_value,
                                                         ''timestamp'' \<mapsto> MStr (clock s 0)]\<rparr>
                    else r)
               (categories s CATEGORY_USER_PREFERENCES) =
             map (\<lambda>r. if r = m
                    then m\<lparr>metadata := (metadata m)(''value'' \<mapsto> MStr preference_value,
                                                     ''timestamp'' \<mapsto> MStr (clock s 0))\<rparr>
                    else r)
               (categories s CATEGORY_USER_PREFERENCES)"
    using distinct_ids_eq [OF ids] by (intro map_cong) auto
  have "categories (record_user_preference sim user_id preference_type preference_value s) =
                (categories s)(CATEGORY_USER_PREFERENCES :=
                   map (\<lambda>r. if mem_id r = mem_id m
                    then r\<lparr>metadata := metadata r ++ [''value'' \<mapsto> MStr preference_value,
                                                         ''timestamp'' \<mapsto> MStr (clock s 0)]\<rparr>
                    else r)
                     (categories s CATEGORY_USER_PREFERENCES))"
    unfolding record_user_preference_def datetime_now_def update_memory_def Cons Let_def
    by (simp del: map_add_upd)
  then have "categories (record_user_preference sim user_id preference_type preference_value s) =
                (categories s)(CATEGORY_USER_PREFERENCES :=
                   map (\<lambda>r. if r = m
                            then m\<lparr>metadata := (metadata m)(''value'' \<mapsto> MStr preference_value,
                                                             ''timestamp'' \<mapsto> MStr (clock s 0))\<rparr>
                            else r)
                     (categories s CATEGORY_USER_PREFERENCES))"
    unfolding eq .
  moreover have "events (record_user_preference sim user_id preference_type preference_value s)
                   = events s"
    "epoch (record_user_preference sim user_id preference_type preference_value s) = epoch s"
    by (simp_all add: record_user_preference_def datetime_now_def update_memory_def Cons)
  ultimately show ?thesis
    unfolding Cons by simp
qed

text \<open>
  The lookup of \<^verbatim>\<open>record_user_preference\<close> comes back empty exactly when the user has no
  preference record at all, of whatever type.
\<close>

lemma record_user_preference_lookup_empty:
  "search_memory sim CATEGORY_USER_PREFERENCES preference_type default_n_results
     [(''user_id'', MStr user_id)] s = [] \<longleftrightarrow>
   filter (\<lambda>m. metadata m ''user_id'' = Some (MStr user_id))
     (categories s CATEGORY_USER_PREFERENCES) = []"
  by (simp add: search_memory_Nil_iff matches_user_id default_n_results_def)

text \<open>
  C4. Where the claim fails: \<open>u1\<close> has one preference record, of type \<open>color\<close>, and none
  of type \<open>topic\<close>. \<^verbatim>\<open>record_user_preference\<close> for \<open>u1\<close>, \<open>topic\<close>, \<open>A\<close> creates no record
  (the next free identifier stays) and overwrites the value of the \<open>color\<close> record, for
  every similarity score: the lookup is a similarity search over all preference records of
  the user, so it returns the \<open>color\<close> record.
\<close>

theorem record_user_preference_no_match_overwrites:
  "(let s0 = record_user_preference sim ''u1'' ''color'' ''red'' empty_store;
        s1 = record_user_preference sim ''u1'' ''topic'' ''A'' s0
    in filter (\<lambda>m. document m = ''topic'' \<and> metadata m ''user_id'' = Some (MStr ''u1''))
         (categories s0 CATEGORY_USER_PREFERENCES) = []
       \<and> map (\<lambda>m. (mem_id m, document m, metadata m ''user_id'', metadata m ''value''))
           (categories s0 CATEGORY_USER_PREFERENCES)
         = [(0, ''color'', Some (MStr ''u1''), Some (MStr ''red''))]
       \<and> map (\<lambda>m. (mem_id m, document m, metadata m ''user_id'', metadata m ''value''))
           (categories s1 CATEGORY_USER_PREFERENCES)
         = [(0, ''color'', Some (MStr ''u1''), Some (MStr ''A''))]
       \<and> next_id s1 = next_id s0)"
  by (simp add: Let_def record_user_preference_def search_memory_def empty_store_def datetime_now_def
      create_memory_def update_memory_def matches_def default_n_results_def)

text \<open>
  C5. The search behind \<^verbatim>\<open>record_user_preference\<close> ranks the user's preference records by
  similarity; it does not select by type. Once \<open>u1\<close> has a preference of type \<open>color\<close> and
  none of type \<open>topic\<close>, recording \<open>topic = A\<close> and then \<open>topic = B\<close> finds the \<open>color\<close>
  record both times and overwrites its value: the store ends with the one record, of type
  \<open>color\<close> and value \<open>B\<close>, and with no record of type \<open>topic\<close>. This holds for every
  similarity score.
\<close>

theorem record_user_preference_other_type:
  "(let s0 = record_user_preference sim ''u1'' ''color'' ''red'' empty_store;
        s2 = record_user_preference sim ''u1'' ''topic'' ''B''
               (record_user_preference sim ''u1'' ''topic'' ''A'' s0)
    in filter (\<lambda>m. document m = ''topic'') (categories s0 CATEGORY_USER_PREFERENCES) = []
       \<and> map (\<lambda>m. (document m, metadata m ''user_id'', metadata m ''value''))
             (categories s2 CATEGORY_USER_PREFERENCES)
           = [(''color'', Some (MStr ''u1''), Some (MStr ''B''))]
       \<and> filter (\<lambda>m. document m = ''topic'') (categories s2 CATEGORY_USER_PREFERENCES) = [])"
  by (simp add: Let_def record_user_preference_def search_memory_def empty_store_def datetime_now_def
      create_memory_def update_memory_def matches_def default_n_results_def)

text \<open>
  For a user without any preference record the two calls do leave one record for that
  user, of the given type and with value \<open>B\<close>.
\<close>

lemma record_user_preference_twice_fresh_user:
  assumes fresh: "filter (\<lambda>m. metadata m ''user_id'' = Some (MStr user_id))
                    (categories s CATEGORY_USER_PREFERENCES) = []"
  shows "filter (\<lambda>m. metadata m ''user_id'' = Some (MStr user_id))
           (categories (record_user_preference sim user_id preference_type ''B''
                          (record_user_preference sim user_id preference_type ''A'' s))
              CATEGORY_USER_PREFERENCES)
         = [\<lparr>mem_id = next_id s, document = preference_type,
              metadata = [''user_id'' \<mapsto> MStr user_id, ''value'' \<mapsto> MStr ''B'',
                          ''timestamp'' \<mapsto> MStr (clock s 1)]\<rparr>]"
proof -
  let ?P = "\<lambda>m. metadata m ''user_id'' = Some (MStr user_id)"
  let ?xs = "categories s CATEGORY_USER_PREFERENCES"
  define r where "r = \<lparr>mem_id = next_id s, document = preference_type,
              metadata = [''user_id'' \<mapsto> MStr user_id, ''value'' \<mapsto> MStr ''A'',
                          ''timestamp'' \<mapsto> MStr (clock s 0)]\<rparr>"
  define s1 where "s1 = record_user_preference sim user_id preference_type ''A'' s"
  define g where "g = (\<lambda>m :: memory. if mem_id m = next_id s
      then m\<lparr>metadata := metadata m ++ [''value'' \<mapsto> MStr ''B'',
                                            ''timestamp'' \<mapsto> MStr (clock s 1)]\<rparr> else m)"
  have none: "search_memory sim CATEGORY_USER_PREFERENCES preference_type default_n_results
                [(''user_id'', MStr user_id)] s = []"
    by (simp add: search_memory_Nil_iff matches_user_id fresh)
  have s1: "categories s1 CATEGORY_USER_PREFERENCES = ?xs @ [r]"
    "clock s1 0 = clock s 1"
    by (simp_all add: s1_def record_user_preference_def none datetime_now_def create_memory_def
        r_def)
  have Pr: "?P r"
    by (simp add: r_def)
  have found: "search_memory sim CATEGORY_USER_PREFERENCES preference_type default_n_results
                [(''user_id'', MStr user_id)] s1 = [r]"
    by (simp add: search_memory_def matches_user_id s1 fresh Pr default_n_results_def)
  have s2: "categories (record_user_preference sim user_id preference_type ''B'' s1)
              CATEGORY_USER_PREFERENCES = map g (?xs @ [r])"
    by (simp add: record_user_preference_def found datetime_now_def update_memory_def s1 g_def
        r_def del: map_add_upd)
  have Pg: "?P (g m) = ?P m" for m
    by (simp add: g_def)
  have "filter ?P (map g ?xs) = []"
    using fresh by (simp add: filter_empty_conv Pg)
  moreover have "g r = \<lparr>mem_id = next_id s, document = preference_type,
              metadata = [''user_id'' \<mapsto> MStr user_id, ''value'' \<mapsto> MStr ''B'',
                          ''timestamp'' \<mapsto> MStr (clock s 1)]\<rparr>"
    by (simp add: g_def r_def)
  ultimately show ?thesis
    unfolding s1_def [symmetric] s2 by simp
qed

section \<open>Initialization\<close>

text \<open>
  C6. \<^verbatim>\<open>initialize_memory\<close> resets the epoch. When the Ordinals-knowledge category is
  empty it appends the five Bitcoin facts and the five Ordinals items, each with exactly
  the metadata keys \<^verbatim>\<open>timestamp\<close> and \<^verbatim>\<open>source\<close>, the latter \<^verbatim>\<open>initial_seeding\<close>; when it is
  not empty no record of any category changes. A second run straight after the first
  changes no record.
\<close>

theorem initialize_memory_seeds_once:
  "(count_memories CATEGORY_ORDINALS_KNOWLEDGE s = 0 \<longrightarrow>
      (\<exists>fs ks. categories (initialize_memory s) =
         (categories s)(CATEGORY_BITCOIN_FACTS := categories s CATEGORY_BITCOIN_FACTS @ fs,
                        CATEGORY_ORDINALS_KNOWLEDGE := ks)
         \<and> map document fs = seed_bitcoin_facts
         \<and> map document ks = seed_ordinals_knowledge
         \<and> (\<forall>m \<in> set (fs @ ks). dom (metadata m) = {''timestamp'', ''source''}
                \<and> metadata m ''source'' = Some (MStr ''initial_seeding''))))
   \<and> (count_memories CATEGORY_ORDINALS_KNOWLEDGE s \<noteq> 0 \<longrightarrow>
        categories (initialize_memory s) = categories s)
   \<and> categories (initialize_memory (initialize_memory s)) = categories (initialize_memory s)
   \<and> epoch (initialize_memory s) = 0"
proof -
  define s1 where "s1 = reset_epoch s"
  have s1: "categories s1 = categories s" "epoch s1 = 0"
    by (simp_all add: s1_def reset_epoch_def)
  have init: "initialize_memory s =
      (if count_memories CATEGORY_ORDINALS_KNOWLEDGE s = 0 then seed_initial_knowledge s1 else s1)"
    by (simp add: initialize_memory_def Let_def s1_def count_memories_def reset_epoch_def)
  from seed_initial_knowledge_effect [of s1] obtain fs ks where
    e: "epoch (seed_initial_knowledge s1) = epoch s1"
    and c: "categories (seed_initial_knowledge s1) =
         (categories s1)(CATEGORY_BITCOIN_FACTS := categories s1 CATEGORY_BITCOIN_FACTS @ fs,
                        CATEGORY_ORDINALS_KNOWLEDGE := categories s1 CATEGORY_ORDINALS_KNOWLEDGE @ ks)"
    and d: "map document fs = seed_bitcoin_facts" "map document ks = seed_ordinals_knowledge"
    and t: "\<forall>m \<in> set (fs @ ks). dom (metadata m) = {''timestamp'', ''source''}
                \<and> metadata m ''source'' = Some (MStr ''initial_seeding'')"
    by (elim conjE exE)
  have seeded: "count_memories CATEGORY_ORDINALS_KNOWLEDGE s = 0 \<longrightarrow>
      (\<exists>fs ks. categories (initialize_memory s) =
         (categories s)(CATEGORY_BITCOIN_FACTS := categories s CATEGORY_BITCOIN_FACTS @ fs,
                        CATEGORY_ORDINALS_KNOWLEDGE := ks)
         \<and> map document fs = seed_bitcoin_facts
         \<and> map document ks = seed_ordinals_knowledge
         \<and> (\<forall>m \<in> set (fs @ ks). dom (metadata m) = {''timestamp'', ''source''}
                \<and> metadata m ''source'' = Some (MStr ''initial_seeding'')))"
  proof
    assume z: "count_memories CATEGORY_ORDINALS_KNOWLEDGE s = 0"
    then have "categories (initialize_memory s) =
         (categories s)(CATEGORY_BITCOIN_FACTS := categories s CATEGORY_BITCOIN_FACTS @ fs,
                        CATEGORY_ORDINALS_KNOWLEDGE := ks)"
      by (simp add: init c s1 count_memories_def)
    with d t show "\<exists>fs ks. categories (initialize_memory s) =
         (categories s)(CATEGORY_BITCOIN_FACTS := categories s CATEGORY_BITCOIN_FACTS @ fs,
                        CATEGORY_ORDINALS_KNOWLEDGE := ks)
         \<and> map document fs = seed_bitcoin_facts
         \<and> map document ks = seed_ordinals_knowledge
         \<and> (\<forall>m \<in> set (fs @ ks). dom (metadata m) = {''timestamp'', ''source''}
                \<and> metadata m ''source'' = Some (MStr ''initial_seeding''))"
      by (intro exI [of _ fs] exI [of _ ks] conjI)
  qed
  have kept: "count_memories CATEGORY_ORDINALS_KNOWLEDGE s' \<noteq> 0 \<Longrightarrow>
      categories (initialize_memory s') = categories s'" for s'
    by (simp add: initialize_memory_def Let_def count_memories_def reset_epoch_def)
  have "length (map document ks) = 5"
    unfolding d(2) by (simp add: seed_ordinals_knowledge_def)
  then have "ks \<noteq> []"
    by auto
  then have "count_memories CATEGORY_ORDINALS_KNOWLEDGE (initialize_memory s) \<noteq> 0"
    by (simp add: init c s1 count_memories_def)
  then have twice: "categories (initialize_memory (initialize_memory s)) = categories (initialize_memory s)"
    by (rule kept)
  have ep: "epoch (initialize_memory s) = 0"
    by (simp add: init e s1)
  from seeded kept [of s] twice ep show ?thesis
    by (intro conjI impI) (erule (1) mp, assumption+)
qed

text \<open>
  On the empty store the first run seeds both lists and the second run adds nothing.
\<close>

theorem initialize_memory_seeds_once_witness:
  "count_memories CATEGORY_ORDINALS_KNOWLEDGE empty_store = 0
   \<and> map document (categories (initialize_memory empty_store) CATEGORY_BITCOIN_FACTS)
       = seed_bitcoin_facts
   \<and> map document (categories (initialize_memory empty_store) CATEGORY_ORDINALS_KNOWLEDGE)
       = seed_ordinals_knowledge
   \<and> count_memories CATEGORY_ORDINALS_KNOWLEDGE (initialize_memory empty_store) \<noteq> 0
   \<and> categories (initialize_memory (initialize_memory empty_store))
       = categories (initialize_memory empty_store)"
proof -
  have z: "count_memories CATEGORY_ORDINALS_KNOWLEDGE empty_store = 0"
    by (simp add: count_memories_def empty_store_def)
  from initialize_memory_seeds_once [of empty_store, THEN conjunct1, THEN mp, OF z]
  obtain fs ks where
    c: "categories (initialize_memory empty_store) =
         (categories empty_store)(CATEGORY_BITCOIN_FACTS := categories empty_store CATEGORY_BITCOIN_FACTS @ fs,
                        CATEGORY_ORDINALS_KNOWLEDGE := ks)"
    and d: "map document fs = seed_bitcoin_facts" "map document ks = seed_ordinals_knowledge"
    by (elim conjE exE)
  have b: "categories empty_store CATEGORY_BITCOIN_FACTS = []"
    by (simp add: empty_store_def)
  have f: "map document (categories (initialize_memory empty_store) CATEGORY_BITCOIN_FACTS)
       = seed_bitcoin_facts"
    by (simp add: c d b category_names_distinct)
  have k: "map document (categories (initialize_memory empty_store) CATEGORY_ORDINALS_KNOWLEDGE)
       = seed_ordinals_knowledge"
    by (simp add: c d)
  have "length (map document (categories (initialize_memory empty_store) CATEGORY_ORDINALS_KNOWLEDGE)) = 5"
    unfolding k by (simp add: seed_ordinals_knowledge_def)
  then have n: "count_memories CATEGORY_ORDINALS_KNOWLEDGE (initialize_memory empty_store) \<noteq> 0"
    by (simp add: count_memories_def)
  from initialize_memory_seeds_once
         [of "initialize_memory empty_store", THEN conjunct2, THEN conjunct1, THEN mp, OF n]
  have "categories (initialize_memory (initialize_memory empty_store))
       = categories (initialize_memory empty_store)" .
  with z f k n show ?thesis
    by (intro conjI)
qed

section \<open>Knowledge recording\<close>

text \<open>
  C7. When some record of the Bitcoin-facts category is at least 0.85 similar to the fact,
  \<^verbatim>\<open>record_bitcoin_fact\<close> leaves every category as it is; in particular the number of
  Bitcoin facts does not grow.
\<close>

theorem record_bitcoin_fact_near_duplicate:
  "\<exists>m \<in> set (categories s CATEGORY_BITCOIN_FACTS). 85 / 100 \<le> sim fact_text (document m) \<Longrightarrow>
   categories (record_bitcoin_fact sim fact_text source s) = categories s
   \<and> count_memories CATEGORY_BITCOIN_FACTS (record_bitcoin_fact sim fact_text source s)
       \<le> count_memories CATEGORY_BITCOIN_FACTS s"
  by (auto simp add: record_bitcoin_fact_def datetime_now_def create_unique_memory_def
      count_memories_def list_ex_iff)

text \<open>
Recording the same fact a second time keeps the count at one.
\<close>

theorem record_bitcoin_fact_near_duplicate_witness:
  "(\<exists>m \<in> set (categories (record_bitcoin_fact exact_sim ''Bitcoin has 100 million satoshis per coin'' ''seed'' empty_store)
                   CATEGORY_BITCOIN_FACTS).
       85 / 100 \<le> exact_sim ''Bitcoin has 100 million satoshis per coin'' (document m))
   \<and> count_memories CATEGORY_BITCOIN_FACTS
        (record_bitcoin_fact exact_sim ''Bitcoin has 100 million satoshis per coin'' ''conversation''
          (record_bitcoin_fact exact_sim ''Bitcoin has 100 million satoshis per coin'' ''seed'' empty_store)) = 1"
proof -
  have h: "\<exists>m \<in> set (categories (record_bitcoin_fact exact_sim ''Bitcoin has 100 million satoshis per coin'' ''seed'' empty_store)
                        CATEGORY_BITCOIN_FACTS).
       85 / 100 \<le> exact_sim ''Bitcoin has 100 million satoshis per coin'' (document m)"
    by (simp add: record_bitcoin_fact_def datetime_now_def create_unique_memory_def create_memory_def
        empty_store_def exact_sim_def)
  show ?thesis
    using h record_bitcoin_fact_near_duplicate
      [where sim = exact_sim and fact_text = "''Bitcoin has 100 million satoshis per coin''"
        and source = "''conversation''"
        and s = "record_bitcoin_fact exact_sim ''Bitcoin has 100 million satoshis per coin'' ''seed'' empty_store",
       OF h]
    by (simp add: count_memories_def record_bitcoin_fact_def datetime_now_def
        create_unique_memory_def create_memory_def empty_store_def exact_sim_def)
qed

section \<open>Message recording\<close>

text \<open>
  C8, as the code has it. \<^verbatim>\<open>record_agent_response\<close> appends one conversation record
  whose text is the whole response and whose speaker is \<^verbatim>\<open>ord_gpt\<close>, and one event whose
  description embeds the first 50 characters of the response, followed by three dots;
  nothing else of the store's records changes.
\<close>

theorem record_agent_response_full_text:
  "categories (record_agent_response user_id message s) =
     (categories s)(CATEGORY_CONVERSATIONS := categories s CATEGORY_CONVERSATIONS @
        [\<lparr>mem_id = next_id s, document = message,
          metadata = [''timestamp'' \<mapsto> MStr (clock s 0), ''user_id'' \<mapsto> MStr user_id,
                      ''speaker'' \<mapsto> MStr ''ord_gpt'', ''epoch'' \<mapsto> MInt (epoch s)]\<rparr>])
   \<and> events (record_agent_response user_id message s) =
       events s @ [(''Ord GPT responded to '' @ user_id @ '': '' @ take 50 message @ ''...'',
                    [''user_id'' \<mapsto> MStr user_id, ''message_type'' \<mapsto> MStr ''agent_response'',
                    ''epoch'' \<mapsto> MInt (epoch s)])]
   \<and> length (take 50 message) \<le> 50"
  by (simp add: categories_record_agent_response events_record_agent_response)

text \<open>
The speaker stored for a response is \<^verbatim>\<open>ord_gpt\<close>, not \<^verbatim>\<open>agent\<close>.
\<close>

theorem record_agent_response_speaker_counterexample:
  "length (categories (record_agent_response ''u1'' ''hello'' empty_store) CATEGORY_CONVERSATIONS) = 1
   \<and> metadata (hd (categories (record_agent_response ''u1'' ''hello'' empty_store)
                      CATEGORY_CONVERSATIONS)) ''speaker'' = Some (MStr ''ord_gpt'')
   \<and> metadata (hd (categories (record_agent_response ''u1'' ''hello'' empty_store)
                      CATEGORY_CONVERSATIONS)) ''speaker'' \<noteq> Some (MStr ''agent'')"
  by (simp add: categories_record_agent_response empty_store_def)

section \<open>Epoch stamping\<close>

text \<open>
  C9, as the code has it. In every category other than the user preferences, an
  operation other than initialization only appends records, and each record it appends
  carries the value the epoch counter holds when the record is written (which is the value
  after the operation, the increment of \<^verbatim>\<open>process_message\<close> coming before its write). The
  same holds of the events it appends to the log. Over a sequence of such operations the
  records and events written stay in place, each carrying an epoch between the counter's
  first and last value, and the counter never decreases. Initialization resets the counter
  to zero; it writes no event, and no record once the Ordinals-knowledge category is not
  empty, as it is after the first initialization.
\<close>

theorem epoch_stamped_on_writes:
  "(op \<noteq> InitializeMemory \<and> c \<noteq> CATEGORY_USER_PREFERENCES \<longrightarrow>
      (\<exists>new. categories (apply_op sim op s) c = categories s c @ new
         \<and> (\<forall>m \<in> set new. metadata m ''epoch'' = Some (MInt (epoch (apply_op sim op s))))))
   \<and> (op \<noteq> InitializeMemory \<longrightarrow>
      (\<exists>new. events (apply_op sim op s) = events s @ new
         \<and> (\<forall>e \<in> set new. snd e ''epoch'' = Some (MInt (epoch (apply_op sim op s))))))
   \<and> (InitializeMemory \<notin> set ops \<and> c \<noteq> CATEGORY_USER_PREFERENCES \<longrightarrow>
      (\<exists>new. categories (run sim ops s) c = categories s c @ new
         \<and> (\<forall>m \<in> set new. \<exists>e. metadata m ''epoch'' = Some (MInt e)
                \<and> epoch s \<le> e \<and> e \<le> epoch (run sim ops s))))
   \<and> (InitializeMemory \<notin> set ops \<longrightarrow>
      (\<exists>new. events (run sim ops s) = events s @ new
         \<and> (\<forall>e \<in> set new. \<exists>k. snd e ''epoch'' = Some (MInt k)
                \<and> epoch s \<le> k \<and> k \<le> epoch (run sim ops s))))
   \<and> (InitializeMemory \<notin> set ops \<longrightarrow> epoch s \<le> epoch (run sim ops s))
   \<and> (count_memories CATEGORY_ORDINALS_KNOWLEDGE s \<noteq> 0 \<longrightarrow>
        categories (apply_op sim InitializeMemory s) = categories s)
   \<and> events (apply_op sim InitializeMemory s) = events s
   \<and> epoch (apply_op sim InitializeMemory s) = 0"
proof (intro conjI impI)
  assume "op \<noteq> InitializeMemory \<and> c \<noteq> CATEGORY_USER_PREFERENCES"
  then show "\<exists>new. categories (apply_op sim op s) c = categories s c @ new
         \<and> (\<forall>m \<in> set new. metadata m ''epoch'' = Some (MInt (epoch (apply_op sim op s))))"
    using apply_op_stamps [of op c sim s] by simp
next
  assume "op \<noteq> InitializeMemory"
  then show "\<exists>new. events (apply_op sim op s) = events s @ new
         \<and> (\<forall>e \<in> set new. snd e ''epoch'' = Some (MInt (epoch (apply_op sim op s))))"
    by (rule apply_op_events)
next
  assume "InitializeMemory \<notin> set ops \<and> c \<noteq> CATEGORY_USER_PREFERENCES"
  then show "\<exists>new. categories (run sim ops s) c = categories s c @ new
         \<and> (\<forall>m \<in> set new. \<exists>e. metadata m ''epoch'' = Some (MInt e)
                \<and> epoch s \<le> e \<and> e \<le> epoch (run sim ops s))"
    using run_effect [of ops c s sim] by simp
next
  assume "InitializeMemory \<notin> set ops"
  then show "\<exists>new. events (run sim ops s) = events s @ new
         \<and> (\<forall>e \<in> set new. \<exists>k. snd e ''epoch'' = Some (MInt k)
                \<and> epoch s \<le> k \<and> k \<le> epoch (run sim ops s))"
    by (rule run_events)
next
  assume "InitializeMemory \<notin> set ops"
  then show "epoch s \<le> epoch (run sim ops s)"
    using run_effect [of ops CATEGORY_CONVERSATIONS s sim] by (simp add: category_names_distinct)
next
  assume "count_memories CATEGORY_ORDINALS_KNOWLEDGE s \<noteq> 0"
  then show "categories (apply_op sim InitializeMemory s) = categories s"
    by (simp add: initialize_memory_writes_nothing)
next
  show "events (apply_op sim InitializeMemory s) = events s"
    by (simp add: initialize_memory_writes_nothing)
next
  show "epoch (apply_op sim InitializeMemory s) = 0"
    by (simp add: initialize_memory_frame)
qed

text \<open>
  On the empty store, \<^verbatim>\<open>process_message\<close> followed by \<^verbatim>\<open>record_response\<close> writes two
  conversation records and two events, all with epoch 1.
\<close>

theorem epoch_stamped_on_writes_witness:
  "ProcessMessage ''u1'' ''Tell me about Ordinals'' \<noteq> InitializeMemory
   \<and> CATEGORY_CONVERSATIONS \<noteq> CATEGORY_USER_PREFERENCES
   \<and> InitializeMemory \<notin> set [ProcessMessage ''u1'' ''Tell me about Ordinals'',
                                 RecordResponse ''u1'' ''Ordinals number satoshis'' None None]
   \<and> (\<exists>new. categories (apply_op exact_sim (ProcessMessage ''u1'' ''Tell me about Ordinals'')
                           empty_store) CATEGORY_CONVERSATIONS = new
          \<and> list_all (\<lambda>m. metadata m ''epoch'' = Some (MInt 1)) new)
   \<and> (\<exists>new. events (apply_op exact_sim (ProcessMessage ''u1'' ''Tell me about Ordinals'')
                       empty_store) = new
          \<and> list_all (\<lambda>e. snd e ''epoch'' = Some (MInt 1)) new)
   \<and> epoch empty_store
       \<le> epoch (run exact_sim [ProcessMessage ''u1'' ''Tell me about Ordinals'',
                                RecordResponse ''u1'' ''Ordinals number satoshis'' None None]
                  empty_store)
   \<and> map (\<lambda>m. metadata m ''epoch'')
         (categories (run exact_sim [ProcessMessage ''u1'' ''Tell me about Ordinals'',
                                     RecordResponse ''u1'' ''Ordinals number satoshis'' None None]
                        empty_store) CATEGORY_CONVERSATIONS)
       = [Some (MInt 1), Some (MInt 1)]
   \<and> map (\<lambda>e. snd e ''epoch'')
         (events (run exact_sim [ProcessMessage ''u1'' ''Tell me about Ordinals'',
                                 RecordResponse ''u1'' ''Ordinals number satoshis'' None None]
                    empty_store))
       = [Some (MInt 1), Some (MInt 1)]
   \<and> count_memories CATEGORY_ORDINALS_KNOWLEDGE
        (record_ordinals_knowledge exact_sim ''Ordinal theory'' ''conversation'' empty_store) \<noteq> 0
   \<and> categories (apply_op exact_sim InitializeMemory
         (record_ordinals_knowledge exact_sim ''Ordinal theory'' ''conversation'' empty_store))
       = categories (record_ordinals_knowledge exact_sim ''Ordinal theory'' ''conversation''
                       empty_store)"
proof -
  let ?op = "ProcessMessage ''u1'' ''Tell me about Ordinals''"
  let ?k = "record_ordinals_knowledge exact_sim ''Ordinal theory'' ''conversation'' empty_store"
  have h3: "count_memories CATEGORY_ORDINALS_KNOWLEDGE ?k \<noteq> 0"
    by (simp add: count_memories_def record_ordinals_knowledge_step empty_store_def)
  note i = epoch_stamped_on_writes [where sim = exact_sim and s = ?k,
      THEN conjunct2, THEN conjunct2, THEN conjunct2, THEN conjunct2, THEN conjunct2,
      THEN conjunct1, THEN mp, OF h3]
  let ?ops = "[?op, RecordResponse ''u1'' ''Ordinals number satoshis'' None None]"
  have h0: "?op \<noteq> InitializeMemory"
    by simp
  have h1: "?op \<noteq> InitializeMemory \<and> CATEGORY_CONVERSATIONS \<noteq> CATEGORY_USER_PREFERENCES"
    by (simp add: category_names_distinct)
  have h2: "InitializeMemory \<notin> set ?ops"
    by simp
  have e: "epoch (apply_op exact_sim ?op empty_store) = 1"
    "categories empty_store CATEGORY_CONVERSATIONS = []"
    "events empty_store = []"
    by (simp_all add: process_message_def generate_context_def Let_def increment_epoch_def
        epoch_record_user_message empty_store_def)
  from epoch_stamped_on_writes [where op = ?op and c = CATEGORY_CONVERSATIONS
      and sim = exact_sim and s = empty_store, THEN conjunct1, THEN mp, OF h1]
  have a: "\<exists>new. categories (apply_op exact_sim ?op empty_store) CATEGORY_CONVERSATIONS = new
          \<and> list_all (\<lambda>m. metadata m ''epoch'' = Some (MInt 1)) new"
    unfolding e by (simp add: list_all_iff)
  from epoch_stamped_on_writes [where op = ?op and sim = exact_sim and s = empty_store,
      THEN conjunct2, THEN conjunct1, THEN mp, OF h0]
  have a2: "\<exists>new. events (apply_op exact_sim ?op empty_store) = new
          \<and> list_all (\<lambda>e. snd e ''epoch'' = Some (MInt 1)) new"
    unfolding e by (simp add: list_all_iff)
  from epoch_stamped_on_writes [where ops = ?ops and sim = exact_sim and s = empty_store,
      THEN conjunct2, THEN conjunct2, THEN conjunct2, THEN conjunct2, THEN conjunct1, THEN mp,
      OF h2]
  have b: "epoch empty_store \<le> epoch (run exact_sim ?ops empty_store)" .
  have c: "map (\<lambda>m. metadata m ''epoch'')
         (categories (run exact_sim ?ops empty_store) CATEGORY_CONVERSATIONS)
       = [Some (MInt 1), Some (MInt 1)]"
    by (simp add: run_def process_message_def generate_context_def Let_def increment_epoch_def
        record_response_def truthy_def categories_record_user_message
        categories_record_agent_response epoch_record_user_message empty_store_def)
  have d: "map (\<lambda>e. snd e ''epoch'') (events (run exact_sim ?ops empty_store))
       = [Some (MInt 1), Some (MInt 1)]"
    by (simp add: run_def process_message_def generate_context_def Let_def increment_epoch_def
        record_response_def truthy_def events_record_user_message
        events_record_agent_response epoch_record_user_message empty_store_def)
  from h1 h2 a a2 b c d h3 i show ?thesis
    by (intro conjI) simp_all
qed

text \<open>
  A preference record is written without an \<^verbatim>\<open>epoch\<close> key: after initialization of the
  empty store the counter is 0, and the record made by \<^verbatim>\<open>record_user_preference\<close> has none.
\<close>

theorem preference_record_without_epoch_counterexample:
  "length (categories
             (run exact_sim [InitializeMemory, RecordUserPreference ''u1'' ''topic'' ''A''] empty_store)
             CATEGORY_USER_PREFERENCES) = 1
   \<and> document (hd (categories
             (run exact_sim [InitializeMemory, RecordUserPreference ''u1'' ''topic'' ''A''] empty_store)
             CATEGORY_USER_PREFERENCES)) = ''topic''
   \<and> metadata (hd (categories
             (run exact_sim [InitializeMemory, RecordUserPreference ''u1'' ''topic'' ''A''] empty_store)
             CATEGORY_USER_PREFERENCES)) ''epoch'' = None
   \<and> epoch (run exact_sim [InitializeMemory, RecordUserPreference ''u1'' ''topic'' ''A'']
              empty_store) = 0"
proof -
  have p: "categories (initialize_memory empty_store) CATEGORY_USER_PREFERENCES = []"
    by (simp add: initialize_memory_frame category_names_distinct empty_store_def)
  show ?thesis
    by (simp add: run_def record_user_preference_def search_memory_def p datetime_now_def
        create_memory_def initialize_memory_frame)
qed

section \<open>Recording a response\<close>

text \<open>
  C10. \<^verbatim>\<open>record_response\<close> always appends exactly one conversation record, the response,
  and one event. Every Bitcoin fact and every Ordinals item it appends has an identifier
  above the response's, so it was created after it, comes from the list supplied, and has
  source \<^verbatim>\<open>conversation\<close>. Every item supplied is in its category afterwards, as itself or
  as a record at least 0.85 similar to it; an item with no such record before the call and
  no such other item in the list is among the records appended. When both lists are
  \<^verbatim>\<open>None\<close> or empty, the response record is the only change to the store's records.
\<close>

theorem record_response_order:
  "(\<exists>fs ks.
      categories (record_response sim user_id response new_facts new_knowledge s) =
        (categories s)
          (CATEGORY_CONVERSATIONS := categories s CATEGORY_CONVERSATIONS @
             [\<lparr>mem_id = next_id s, document = response,
               metadata = [''timestamp'' \<mapsto> MStr (clock s 0), ''user_id'' \<mapsto> MStr user_id,
                           ''speaker'' \<mapsto> MStr ''ord_gpt'', ''epoch'' \<mapsto> MInt (epoch s)]\<rparr>],
           CATEGORY_BITCOIN_FACTS := categories s CATEGORY_BITCOIN_FACTS @ fs,
           CATEGORY_ORDINALS_KNOWLEDGE := categories s CATEGORY_ORDINALS_KNOWLEDGE @ ks)
      \<and> (\<forall>m \<in> set fs. next_id s < mem_id m
             \<and> (\<exists>ts. new_facts = Some ts \<and> document m \<in> set ts)
             \<and> metadata m ''source'' = Some (MStr ''conversation''))
      \<and> (\<forall>m \<in> set ks. next_id s < mem_id m
             \<and> (\<exists>ts. new_knowledge = Some ts \<and> document m \<in> set ts)
             \<and> metadata m ''source'' = Some (MStr ''conversation''))
      \<and> (\<forall>ts f0. new_facts = Some ts \<and> f0 \<in> set ts \<longrightarrow>
             list_ex (\<lambda>m. document m = f0 \<or> 85 / 100 \<le> sim f0 (document m))
               (categories s CATEGORY_BITCOIN_FACTS @ fs)
             \<and> (\<not> list_ex (\<lambda>m. 85 / 100 \<le> sim f0 (document m))
                     (categories s CATEGORY_BITCOIN_FACTS)
                  \<and> (\<forall>g \<in> set ts. g \<noteq> f0 \<longrightarrow> \<not> 85 / 100 \<le> sim f0 g)
                \<longrightarrow> (\<exists>m \<in> set fs. document m = f0)))
      \<and> (\<forall>ts k0. new_knowledge = Some ts \<and> k0 \<in> set ts \<longrightarrow>
             list_ex (\<lambda>m. document m = k0 \<or> 85 / 100 \<le> sim k0 (document m))
               (categories s CATEGORY_ORDINALS_KNOWLEDGE @ ks)
             \<and> (\<not> list_ex (\<lambda>m. 85 / 100 \<le> sim k0 (document m))
                     (categories s CATEGORY_ORDINALS_KNOWLEDGE)
                  \<and> (\<forall>g \<in> set ts. g \<noteq> k0 \<longrightarrow> \<not> 85 / 100 \<le> sim k0 g)
                \<longrightarrow> (\<exists>m \<in> set ks. document m = k0))))
   \<and> events (record_response sim user_id response new_facts new_knowledge s) =
       events s @ [(''Ord GPT responded to '' @ user_id @ '': '' @ take 50 response @ ''...'',
                    [''user_id'' \<mapsto> MStr user_id, ''message_type'' \<mapsto> MStr ''agent_response'',
                     ''epoch'' \<mapsto> MInt (epoch s)])]
   \<and> ((new_facts = None \<or> new_facts = Some []) \<and> (new_knowledge = None \<or> new_knowledge = Some [])
        \<longrightarrow> categories (record_response sim user_id response new_facts new_knowledge s) =
             (categories s)
               (CATEGORY_CONVERSATIONS := categories s CATEGORY_CONVERSATIONS @
                  [\<lparr>mem_id = next_id s, document = response,
                    metadata = [''timestamp'' \<mapsto> MStr (clock s 0), ''user_id'' \<mapsto> MStr user_id,
                                ''speaker'' \<mapsto> MStr ''ord_gpt'', ''epoch'' \<mapsto> MInt (epoch s)]\<rparr>]))"
proof -
  let ?s' = "record_response sim user_id response new_facts new_knowledge s"
  let ?conv = "categories s CATEGORY_CONVERSATIONS @
             [\<lparr>mem_id = next_id s, document = response,
               metadata = [''timestamp'' \<mapsto> MStr (clock s 0), ''user_id'' \<mapsto> MStr user_id,
                           ''speaker'' \<mapsto> MStr ''ord_gpt'', ''epoch'' \<mapsto> MInt (epoch s)]\<rparr>]"
  from record_response_effect [of sim user_id response new_facts new_knowledge s]
  obtain fs ks where
    v: "events ?s' =
       events s @ [(''Ord GPT responded to '' @ user_id @ '': '' @ take 50 response @ ''...'',
                    [''user_id'' \<mapsto> MStr user_id, ''message_type'' \<mapsto> MStr ''agent_response'',
                     ''epoch'' \<mapsto> MInt (epoch s)])]"
    and c: "categories ?s' =
        (categories s)
          (CATEGORY_CONVERSATIONS := ?conv,
           CATEGORY_BITCOIN_FACTS := categories s CATEGORY_BITCOIN_FACTS @ fs,
           CATEGORY_ORDINALS_KNOWLEDGE := categories s CATEGORY_ORDINALS_KNOWLEDGE @ ks)"
    and mf: "\<forall>m \<in> set fs. next_id s < mem_id m
                \<and> (\<exists>ts. new_facts = Some ts \<and> document m \<in> set ts)
                \<and> metadata m ''source'' = Some (MStr ''conversation'')
                \<and> metadata m ''epoch'' = Some (MInt (epoch s))"
    and mk: "\<forall>m \<in> set ks. next_id s < mem_id m
                \<and> (\<exists>ts. new_knowledge = Some ts \<and> document m \<in> set ts)
                \<and> metadata m ''source'' = Some (MStr ''conversation'')
                \<and> metadata m ''epoch'' = Some (MInt (epoch s))"
    by (elim conjE exE)
  have cf: "categories ?s' CATEGORY_BITCOIN_FACTS = categories s CATEGORY_BITCOIN_FACTS @ fs"
    and ck: "categories ?s' CATEGORY_ORDINALS_KNOWLEDGE =
               categories s CATEGORY_ORDINALS_KNOWLEDGE @ ks"
    by (simp_all add: c category_names_distinct)
  have mf': "\<forall>m \<in> set fs. next_id s < mem_id m
             \<and> (\<exists>ts. new_facts = Some ts \<and> document m \<in> set ts)
             \<and> metadata m ''source'' = Some (MStr ''conversation'')"
    using mf by blast
  have mk': "\<forall>m \<in> set ks. next_id s < mem_id m
             \<and> (\<exists>ts. new_knowledge = Some ts \<and> document m \<in> set ts)
             \<and> metadata m ''source'' = Some (MStr ''conversation'')"
    using mk by blast
  have pf: "\<forall>ts f0. new_facts = Some ts \<and> f0 \<in> set ts \<longrightarrow>
             list_ex (\<lambda>m. document m = f0 \<or> 85 / 100 \<le> sim f0 (document m))
               (categories s CATEGORY_BITCOIN_FACTS @ fs)
             \<and> (\<not> list_ex (\<lambda>m. 85 / 100 \<le> sim f0 (document m))
                     (categories s CATEGORY_BITCOIN_FACTS)
                  \<and> (\<forall>g \<in> set ts. g \<noteq> f0 \<longrightarrow> \<not> 85 / 100 \<le> sim f0 g)
                \<longrightarrow> (\<exists>m \<in> set fs. document m = f0))"
  proof (intro allI impI conjI; elim conjE)
    fix ts f0
    assume a: "new_facts = Some ts" "f0 \<in> set ts"
    from record_response_persists_fact(1) [where sim = sim and s = s and user_id = user_id
        and response = response and new_knowledge = new_knowledge, OF a]
    show "list_ex (\<lambda>m. document m = f0 \<or> 85 / 100 \<le> sim f0 (document m))
               (categories s CATEGORY_BITCOIN_FACTS @ fs)"
      unfolding cf .
    assume b: "\<not> list_ex (\<lambda>m. 85 / 100 \<le> sim f0 (document m))
                     (categories s CATEGORY_BITCOIN_FACTS)"
      "\<forall>g \<in> set ts. g \<noteq> f0 \<longrightarrow> \<not> 85 / 100 \<le> sim f0 g"
    from record_response_persists_fact(2) [where sim = sim and s = s and user_id = user_id
        and response = response and new_knowledge = new_knowledge, OF a b]
    show "\<exists>m \<in> set fs. document m = f0"
      unfolding cf by simp
  qed
  have pk: "\<forall>ts k0. new_knowledge = Some ts \<and> k0 \<in> set ts \<longrightarrow>
             list_ex (\<lambda>m. document m = k0 \<or> 85 / 100 \<le> sim k0 (document m))
               (categories s CATEGORY_ORDINALS_KNOWLEDGE @ ks)
             \<and> (\<not> list_ex (\<lambda>m. 85 / 100 \<le> sim k0 (document m))
                     (categories s CATEGORY_ORDINALS_KNOWLEDGE)
                  \<and> (\<forall>g \<in> set ts. g \<noteq> k0 \<longrightarrow> \<not> 85 / 100 \<le> sim k0 g)
                \<longrightarrow> (\<exists>m \<in> set ks. document m = k0))"
  proof (intro allI impI conjI; elim conjE)
    fix ts k0
    assume a: "new_knowledge = Some ts" "k0 \<in> set ts"
    from record_response_persists_knowledge(1) [where sim = sim and s = s and user_id = user_id
        and response = response and new_facts = new_facts, OF a]
    show "list_ex (\<lambda>m. document m = k0 \<or> 85 / 100 \<le> sim k0 (document m))
               (categories s CATEGORY_ORDINALS_KNOWLEDGE @ ks)"
      unfolding ck .
    assume b: "\<not> list_ex (\<lambda>m. 85 / 100 \<le> sim k0 (document m))
                     (categories s CATEGORY_ORDINALS_KNOWLEDGE)"
      "\<forall>g \<in> set ts. g \<noteq> k0 \<longrightarrow> \<not> 85 / 100 \<le> sim k0 g"
    from record_response_persists_knowledge(2) [where sim = sim and s = s and user_id = user_id
        and response = response and new_facts = new_facts, OF a b]
    show "\<exists>m \<in> set ks. document m = k0"
      unfolding ck by simp
  qed
  have none: "categories ?s' = (categories s)(CATEGORY_CONVERSATIONS := ?conv)"
    if f: "new_facts = None \<or> new_facts = Some []"
      and k: "new_knowledge = None \<or> new_knowledge = Some []"
  proof -
    have "fs = []"
    proof (rule ccontr)
      assume "fs \<noteq> []"
      then obtain m where "m \<in> set fs" by (cases fs) auto
      with mf f show False by auto
    qed
    moreover have "ks = []"
    proof (rule ccontr)
      assume "ks \<noteq> []"
      then obtain m where "m \<in> set ks" by (cases ks) auto
      with mk k show False by auto
    qed
    ultimately show ?thesis
      by (simp add: c category_names_distinct fun_upd_twist)
  qed
  from c mf' mk' pf pk have "\<exists>fs ks.
      categories ?s' =
        (categories s)
          (CATEGORY_CONVERSATIONS := ?conv,
           CATEGORY_BITCOIN_FACTS := categories s CATEGORY_BITCOIN_FACTS @ fs,
           CATEGORY_ORDINALS_KNOWLEDGE := categories s CATEGORY_ORDINALS_KNOWLEDGE @ ks)
      \<and> (\<forall>m \<in> set fs. next_id s < mem_id m
             \<and> (\<exists>ts. new_facts = Some ts \<and> document m \<in> set ts)
             \<and> metadata m ''source'' = Some (MStr ''conversation''))
      \<and> (\<forall>m \<in> set ks. next_id s < mem_id m
             \<and> (\<exists>ts. new_knowledge = Some ts \<and> document m \<in> set ts)
             \<and> metadata m ''source'' = Some (MStr ''conversation''))
      \<and> (\<forall>ts f0. new_facts = Some ts \<and> f0 \<in> set ts \<longrightarrow>
             list_ex (\<lambda>m. document m = f0 \<or> 85 / 100 \<le> sim f0 (document m))
               (categories s CATEGORY_BITCOIN_FACTS @ fs)
             \<and> (\<not> list_ex (\<lambda>m. 85 / 100 \<le> sim f0 (document m))
                     (categories s CATEGORY_BITCOIN_FACTS)
                  \<and> (\<forall>g \<in> set ts. g \<noteq> f0 \<longrightarrow> \<not> 85 / 100 \<le> sim f0 g)
                \<longrightarrow> (\<exists>m \<in> set fs. document m = f0)))
      \<and> (\<forall>ts k0. new_knowledge = Some ts \<and> k0 \<in> set ts \<longrightarrow>
             list_ex (\<lambda>m. document m = k0 \<or> 85 / 100 \<le> sim k0 (document m))
               (categories s CATEGORY_ORDINALS_KNOWLEDGE @ ks)
             \<and> (\<not> list_ex (\<lambda>m. 85 / 100 \<le> sim k0 (document m))
                     (categories s CATEGORY_ORDINALS_KNOWLEDGE)
                  \<and> (\<forall>g \<in> set ts. g \<noteq> k0 \<longrightarrow> \<not> 85 / 100 \<le> sim k0 g)
                \<longrightarrow> (\<exists>m \<in> set ks. document m = k0)))"
    by (intro exI [of _ fs] exI [of _ ks] conjI)
  with v none show ?thesis
    by (intro conjI impI) (assumption, assumption, elim conjE, assumption)
qed

text \<open>
  With the lists of \<^verbatim>\<open>temp_record_response.py\<close> on the empty store, the fact and the
  knowledge item are both stored, after the response and with source \<^verbatim>\<open>conversation\<close>;
  with no facts supplied only the conversation record appears.
\<close>

theorem record_response_order_witness:
  "(\<exists>m \<in> set (categories
                  (record_response exact_sim ''test_user_1742690565421'' ''Bitcoin Ordinals are a way''
                     (Some [''Bitcoin has 100 million satoshis per coin''])
                     (Some [''Ordinal inscriptions became popular in early 2023'']) empty_store)
                  CATEGORY_BITCOIN_FACTS).
      document m = ''Bitcoin has 100 million satoshis per coin''
      \<and> metadata m ''source'' = Some (MStr ''conversation'')
      \<and> next_id empty_store < mem_id m)
   \<and> (\<exists>m \<in> set (categories
                  (record_response exact_sim ''test_user_1742690565421'' ''Bitcoin Ordinals are a way''
                     (Some [''Bitcoin has 100 million satoshis per coin''])
                     (Some [''Ordinal inscriptions became popular in early 2023'']) empty_store)
                  CATEGORY_ORDINALS_KNOWLEDGE).
      document m = ''Ordinal inscriptions became popular in early 2023''
      \<and> metadata m ''source'' = Some (MStr ''conversation'')
      \<and> next_id empty_store < mem_id m)
   \<and> length (categories (record_response exact_sim ''u1'' ''hello'' None (Some []) empty_store)
                CATEGORY_CONVERSATIONS) = 1
   \<and> categories (record_response exact_sim ''u1'' ''hello'' None (Some []) empty_store)
        CATEGORY_BITCOIN_FACTS = []
   \<and> categories (record_response exact_sim ''u1'' ''hello'' None (Some []) empty_store)
        CATEGORY_ORDINALS_KNOWLEDGE = []"
proof -
  let ?F = "''Bitcoin has 100 million satoshis per coin''"
  let ?K = "''Ordinal inscriptions became popular in early 2023''"
  let ?s' = "record_response exact_sim ''test_user_1742690565421'' ''Bitcoin Ordinals are a way''
               (Some [?F]) (Some [?K]) empty_store"
  have e: "categories empty_store = (\<lambda>c. [])"
    by (simp add: empty_store_def)
  from record_response_order [where sim = exact_sim and user_id = "''test_user_1742690565421''"
      and response = "''Bitcoin Ordinals are a way''" and new_facts = "Some [?F]"
      and new_knowledge = "Some [?K]" and s = empty_store, THEN conjunct1]
  obtain fs ks where
    c: "categories ?s' =
        (categories empty_store)
          (CATEGORY_CONVERSATIONS := categories empty_store CATEGORY_CONVERSATIONS @
             [\<lparr>mem_id = next_id empty_store, document = ''Bitcoin Ordinals are a way'',
               metadata = [''timestamp'' \<mapsto> MStr (clock empty_store 0),
                           ''user_id'' \<mapsto> MStr ''test_user_1742690565421'',
                           ''speaker'' \<mapsto> MStr ''ord_gpt'',
                           ''epoch'' \<mapsto> MInt (epoch empty_store)]\<rparr>],
           CATEGORY_BITCOIN_FACTS := categories empty_store CATEGORY_BITCOIN_FACTS @ fs,
           CATEGORY_ORDINALS_KNOWLEDGE := categories empty_store CATEGORY_ORDINALS_KNOWLEDGE @ ks)"
    and mf: "\<forall>m \<in> set fs. next_id empty_store < mem_id m
             \<and> (\<exists>ts. Some [?F] = Some ts \<and> document m \<in> set ts)
             \<and> metadata m ''source'' = Some (MStr ''conversation'')"
    and mk: "\<forall>m \<in> set ks. next_id empty_store < mem_id m
             \<and> (\<exists>ts. Some [?K] = Some ts \<and> document m \<in> set ts)
             \<and> metadata m ''source'' = Some (MStr ''conversation'')"
    and pf: "\<forall>ts f0. Some [?F] = Some ts \<and> f0 \<in> set ts \<longrightarrow>
             list_ex (\<lambda>m. document m = f0 \<or> 85 / 100 \<le> exact_sim f0 (document m))
               (categories empty_store CATEGORY_BITCOIN_FACTS @ fs)
             \<and> (\<not> list_ex (\<lambda>m. 85 / 100 \<le> exact_sim f0 (document m))
                     (categories empty_store CATEGORY_BITCOIN_FACTS)
                  \<and> (\<forall>g \<in> set ts. g \<noteq> f0 \<longrightarrow> \<not> 85 / 100 \<le> exact_sim f0 g)
                \<longrightarrow> (\<exists>m \<in> set fs. document m = f0))"
    and pk: "\<forall>ts k0. Some [?K] = Some ts \<and> k0 \<in> set ts \<longrightarrow>
             list_ex (\<lambda>m. document m = k0 \<or> 85 / 100 \<le> exact_sim k0 (document m))
               (categories empty_store CATEGORY_ORDINALS_KNOWLEDGE @ ks)
             \<and> (\<not> list_ex (\<lambda>m. 85 / 100 \<le> exact_sim k0 (document m))
                     (categories empty_store CATEGORY_ORDINALS_KNOWLEDGE)
                  \<and> (\<forall>g \<in> set ts. g \<noteq> k0 \<longrightarrow> \<not> 85 / 100 \<le> exact_sim k0 g)
                \<longrightarrow> (\<exists>m \<in> set ks. document m = k0))"
    by (elim conjE exE)
  have cf: "categories ?s' CATEGORY_BITCOIN_FACTS = fs"
    and ck: "categories ?s' CATEGORY_ORDINALS_KNOWLEDGE = ks"
    by (simp_all add: c e category_names_distinct)
  from pf [rule_format, of "[?F]" ?F] obtain m where "m \<in> set fs" "document m = ?F"
    by (auto simp: e)
  with mf have a: "\<exists>m \<in> set (categories ?s' CATEGORY_BITCOIN_FACTS).
      document m = ?F \<and> metadata m ''source'' = Some (MStr ''conversation'')
      \<and> next_id empty_store < mem_id m"
    unfolding cf by blast
  from pk [rule_format, of "[?K]" ?K] obtain k where "k \<in> set ks" "document k = ?K"
    by (auto simp: e)
  with mk have b: "\<exists>m \<in> set (categories ?s' CATEGORY_ORDINALS_KNOWLEDGE).
      document m = ?K \<and> metadata m ''source'' = Some (MStr ''conversation'')
      \<and> next_id empty_store < mem_id m"
    unfolding ck by blast
  have h: "((None :: string list option) = None \<or> (None :: string list option) = Some [])
           \<and> (Some [] = (None :: string list option) \<or> Some [] = Some ([] :: string list))"
    by simp
  note n = record_response_order [where sim = exact_sim and user_id = "''u1''"
      and response = "''hello''" and new_facts = None and new_knowledge = "Some []"
      and s = empty_store, THEN conjunct2, THEN conjunct2, THEN mp, OF h]
  have d: "length (categories (record_response exact_sim ''u1'' ''hello'' None (Some []) empty_store)
                CATEGORY_CONVERSATIONS) = 1"
    "categories (record_response exact_sim ''u1'' ''hello'' None (Some []) empty_store)
        CATEGORY_BITCOIN_FACTS = []"
    "categories (record_response exact_sim ''u1'' ''hello'' None (Some []) empty_store)
        CATEGORY_ORDINALS_KNOWLEDGE = []"
    unfolding n by (simp_all add: e category_names_distinct)
  from a b d show ?thesis
    by (intro conjI)
qed

end
